theory Spec2Isabelle
  imports Complex_Main "HOL-Library.Multiset"
begin

section \<open>Data model of \<open>ocean_collector.py\<close>\<close>

text \<open>
  Numbers. The values of a reading are kept as \<open>real\<close>s: the anomaly rules, the depth
  default and the queries only compare and copy them. Where the code computes with them
  (the heat content), the model computes in double precision: every operation rounds to
  the nearest double.

  Time. \<open>datetime.now().isoformat()\<close> is a fixed-width text (an optional fraction of a
  second at the end), which SQLite compares as text; that order is the order of the
  instants. The model keeps the instant: an \<open>int\<close>, the microseconds since
  \<open>datetime.min\<close> (0001-01-01T00:00:00) on the local clock. The clock is an input of every
  operation that reads it (\<open>now\<close>).

  Tables are lists in insertion (rowid) order.
\<close>

type_synonym timestamp = int

datatype SensorType = BUOY | ARGO_FLOAT | GLIDER | MOORING | AUV | CTD

fun SensorType_value :: "SensorType \<Rightarrow> string" where
  "SensorType_value BUOY = ''buoy''"
| "SensorType_value ARGO_FLOAT = ''argo_float''"
| "SensorType_value GLIDER = ''glider''"
| "SensorType_value MOORING = ''mooring''"
| "SensorType_value AUV = ''auv''"
| "SensorType_value CTD = ''ctd''"

definition SensorType_members :: "SensorType list" where
  \<comment> \<open>iteration order of the enum: \<open>for t in SensorType\<close>\<close>
  "SensorType_members = [BUOY, ARGO_FLOAT, GLIDER, MOORING, AUV, CTD]"

text \<open>
  The dataclasses. Both have a field \<open>depth_m\<close>, and \<open>id\<close> is a constant of HOL, so the
  fields of a sensor carry the prefix \<open>s_\<close> and those of an anomaly row the prefix \<open>a_\<close>.
\<close>

record OceanSensor =
  s_id :: string
  s_name :: string
  s_type :: string
  s_lat :: real
  s_lon :: real
  s_depth_m :: real
  s_status :: string
  s_last_reading_ts :: "timestamp option"

record OceanReading =
  sensor_id :: string
  temperature_c :: real
  salinity_psu :: real
  ph :: real
  dissolved_o2_mgl :: real
  current_ms :: real
  depth_m :: real
  timestamp :: timestamp

record Anomaly =
  a_sensor_id :: string
  a_type :: string
  a_value :: real
  a_severity :: string
  a_timestamp :: timestamp

text \<open>The database: the three tables of \<open>_init_db\<close>.\<close>

record Store =
  sensors :: "OceanSensor list"
  readings :: "OceanReading list"
  anomalies :: "Anomaly list"

datatype error =
    InvalidType          \<comment> \<open>\<open>ValueError("Invalid type. ...")\<close>\<close>
  | SensorNotFound string  \<comment> \<open>\<open>ValueError("Sensor ... not found")\<close>\<close>
  | IntegrityError       \<comment> \<open>the primary key of \<open>sensors\<close> refuses a second row with the id\<close>
  | OverflowError        \<comment> \<open>a \<open>timedelta\<close> or a \<open>datetime\<close> out of its range\<close>
  | ZeroDivisionError    \<comment> \<open>\<open>x / 0\<close>\<close>

section \<open>The demo fleet\<close>

definition demo_sensor :: "string \<Rightarrow> string \<Rightarrow> string \<Rightarrow> real \<Rightarrow> real \<Rightarrow> real \<Rightarrow> OceanSensor" where
  \<comment> \<open>one row of \<open>demo_sensors\<close>, inserted with status \<open>'active'\<close> and no reading\<close>
  "demo_sensor i n t la lo d =
     \<lparr> s_id = i, s_name = n, s_type = t, s_lat = la, s_lon = lo, s_depth_m = d,
       s_status = ''active'', s_last_reading_ts = None \<rparr>"

definition demo_store :: Store where
  \<comment> \<open>the database after \<open>_init_db\<close> and \<open>_initialize_demo_sensors\<close> on an empty file\<close>
  "demo_store =
     \<lparr> sensors =
         [demo_sensor ''S_PACIFIC_01'' ''Pacific Buoy'' ''buoy'' 35.5 (-120.3) 4000,
          demo_sensor ''S_ATLANTIC_01'' ''Atlantic Mooring'' ''mooring'' 45.2 (-30.1) 5000,
          demo_sensor ''S_ARCTIC_01'' ''Arctic Glider'' ''glider'' 78.5 15.2 3000],
       readings = [],
       anomalies = [] \<rparr>"

section \<open>Deploying a sensor\<close>

definition upper_char :: "char \<Rightarrow> char" where
  \<comment> \<open>\<open>str.upper\<close> on an ASCII character\<close>
  "upper_char c =
     (let n = (of_char c :: nat) in if 97 \<le> n \<and> n \<le> 122 then char_of (n - 32) else c)"

definition deploy_sensor ::
  "string \<Rightarrow> Store \<Rightarrow> string \<Rightarrow> string \<Rightarrow> real \<Rightarrow> real \<Rightarrow> real \<Rightarrow> (error + OceanSensor) \<times> Store" where
  \<comment> \<open>\<open>uuid_hex\<close> is \<open>uuid.uuid4().hex\<close>, drawn by the environment\<close>
  "deploy_sensor uuid_hex db name type' lat lon depth_m' =
     (if type' \<notin> set (map SensorType_value SensorType_members) then (Inl InvalidType, db)
      else
        let sensor_id' = ''S_'' @ map upper_char (take 8 uuid_hex);
            sensor = \<lparr> s_id = sensor_id', s_name = name, s_type = type', s_lat = lat,
                       s_lon = lon, s_depth_m = depth_m', s_status = ''active'',
                       s_last_reading_ts = None \<rparr>
        in if sensor_id' \<in> set (map s_id (sensors db)) then (Inl IntegrityError, db)
           else (Inr sensor, db \<lparr> sensors := sensors db @ [sensor] \<rparr>))"

section \<open>Ingesting a reading\<close>

definition insert_anomaly :: "Store \<Rightarrow> string \<Rightarrow> string \<Rightarrow> real \<Rightarrow> string \<Rightarrow> timestamp \<Rightarrow> Store" where
  \<comment> \<open>\<open>INSERT INTO anomalies (sensor_id, type, value, severity, timestamp)\<close>\<close>
  "insert_anomaly db sid ty v sev ts =
     db \<lparr> anomalies := anomalies db @
            [\<lparr> a_sensor_id = sid, a_type = ty, a_value = v, a_severity = sev, a_timestamp = ts \<rparr>] \<rparr>"

definition check_anomalies :: "Store \<Rightarrow> string \<Rightarrow> real \<Rightarrow> real \<Rightarrow> real \<Rightarrow> timestamp \<Rightarrow> Store" where
  \<comment> \<open>\<open>_check_anomalies\<close>: three \<open>if\<close> statements in a row, on the same cursor\<close>
  "check_anomalies db sid temp ph' o2 ts =
     (let db1 = (if temp > 30 then insert_anomaly db sid ''high_temperature'' temp ''warning'' ts
                 else db);
          db2 = (if ph' < 7.8 then insert_anomaly db1 sid ''ocean_acidification'' ph' ''critical'' ts
                 else db1);
          db3 = (if o2 < 4 then insert_anomaly db2 sid ''hypoxia'' o2 ''critical'' ts
                 else db2)
      in db3)"

definition py_or :: "real option \<Rightarrow> real \<Rightarrow> real" where
  \<comment> \<open>\<open>depth or sensor_row[5]\<close>: \<open>None\<close> and the number zero are the falsy values\<close>
  "py_or depth nominal =
     (case depth of None \<Rightarrow> nominal | Some d \<Rightarrow> if d = 0 then nominal else d)"

definition ingest_reading ::
  "timestamp \<Rightarrow> Store \<Rightarrow> string \<Rightarrow> real \<Rightarrow> real \<Rightarrow> real \<Rightarrow> real \<Rightarrow> real \<Rightarrow> real option
     \<Rightarrow> (error + OceanReading) \<times> Store" where
  \<comment> \<open>\<open>now\<close> is \<open>datetime.now()\<close>; \<open>depth = None\<close> is the default of the parameter\<close>
  "ingest_reading now db sid temp salinity ph' o2 current depth =
     (case find (\<lambda>s. s_id s = sid) (sensors db) of
        None \<Rightarrow> (Inl (SensorNotFound sid), db)
      | Some sensor_row \<Rightarrow>
          let depth' = py_or depth (s_depth_m sensor_row);
              ts = now;
              r = \<lparr> sensor_id = sid, temperature_c = temp, salinity_psu = salinity, ph = ph',
                    dissolved_o2_mgl = o2, current_ms = current, depth_m = depth',
                    timestamp = ts \<rparr>;
              db1 = db \<lparr> readings := readings db @ [r] \<rparr>;
              db2 = db1 \<lparr> sensors :=
                      map (\<lambda>s. if s_id s = sid then s \<lparr> s_last_reading_ts := Some ts \<rparr> else s)
                          (sensors db1) \<rparr>;
              db3 = check_anomalies db2 sid temp ph' o2 ts
          in (Inr r, db3))"

section \<open>Queries\<close>

definition order_by_timestamp_desc :: "OceanReading list \<Rightarrow> OceanReading list" where
  \<comment> \<open>\<open>ORDER BY timestamp DESC\<close>. SQL leaves the order of rows with equal timestamps open;
      the model keeps them in insertion order.\<close>
  "order_by_timestamp_desc rows = sort_key (\<lambda>r. - timestamp r) rows"

definition get_latest :: "Store \<Rightarrow> string \<Rightarrow> OceanReading option" where
  \<comment> \<open>\<open>... WHERE sensor_id = ? ORDER BY timestamp DESC LIMIT 1\<close>, then \<open>fetchone\<close>\<close>
  "get_latest db sid =
     (case order_by_timestamp_desc (filter (\<lambda>r. sensor_id r = sid) (readings db)) of
        [] \<Rightarrow> None
      | row # _ \<Rightarrow> Some row)"

definition datetime_max :: timestamp where
  \<comment> \<open>\<open>datetime.max\<close>, 9999-12-31T23:59:59.999999: the last microsecond of the 3652059 days
      that start at \<open>datetime.min\<close>\<close>
  "datetime_max = 3652059 * 86400000000 - 1"

definition timedelta_hours :: "int \<Rightarrow> error + int" where
  \<comment> \<open>\<open>timedelta(hours=h)\<close> in microseconds; a \<open>timedelta\<close> has at most 999999999 days\<close>
  "timedelta_hours h =
     (let us = h * 3600000000; days = us div 86400000000
      in if days < - 999999999 \<or> 999999999 < days then Inl OverflowError else Inr us)"

definition datetime_sub :: "timestamp \<Rightarrow> int \<Rightarrow> error + timestamp" where
  \<comment> \<open>\<open>datetime - timedelta\<close>: the result is a \<open>datetime\<close>, between \<open>datetime.min\<close> and
      \<open>datetime.max\<close>, or the subtraction raises\<close>
  "datetime_sub t delta =
     (let r = t - delta in if r < 0 \<or> datetime_max < r then Inl OverflowError else Inr r)"

definition get_history ::
  "timestamp \<Rightarrow> Store \<Rightarrow> string \<Rightarrow> int \<Rightarrow> error + OceanReading list" where
  "get_history now db sid hours =
     (case timedelta_hours hours of
        Inl e \<Rightarrow> Inl e
      | Inr delta \<Rightarrow>
          (case datetime_sub now delta of
             Inl e \<Rightarrow> Inl e
           | Inr cutoff \<Rightarrow>
               Inr (order_by_timestamp_desc
                      (filter (\<lambda>r. sensor_id r = sid \<and> timestamp r > cutoff) (readings db)))))"

section \<open>Double-precision arithmetic\<close>

text \<open>
  A Python \<open>float\<close> is an IEEE 754 double: a finite value, an infinity or NaN. A finite
  double is kept as the real number it stands for (the two zeros are one value, as they
  are for \<open>==\<close>). Each operation computes the exact result and rounds it to the nearest
  double, a tie to the one with the even last bit; a result beyond the largest double
  becomes an infinity.
\<close>

datatype double = Fin real | PInf | NInf | NaN

definition round_half_even :: "real \<Rightarrow> int" where
  "round_half_even x =
     (let f = \<lfloor>x\<rfloor>; d = x - of_int f
      in if d < 1 / 2 then f else if d > 1 / 2 then f + 1 else if even f then f else f + 1)"

fun halvings :: "nat \<Rightarrow> real \<Rightarrow> nat" where
  \<comment> \<open>how often \<open>a\<close> is halved until it is below 2, at most \<open>n\<close> times\<close>
  "halvings 0 a = 0"
| "halvings (Suc n) a = (if 2 \<le> a then Suc (halvings n (a / 2)) else 0)"

fun doublings :: "nat \<Rightarrow> real \<Rightarrow> nat" where
  \<comment> \<open>how often \<open>a\<close> is doubled until it is at least 1, at most \<open>n\<close> times\<close>
  "doublings 0 a = 0"
| "doublings (Suc n) a = (if a < 1 then Suc (doublings n (2 * a)) else 0)"

definition ulp :: "real \<Rightarrow> real" where
  \<comment> \<open>the distance of neighbouring doubles at \<open>r\<close>: \<open>2 ^ (e - 52)\<close> for
      \<open>2 ^ e \<le> \<bar>r\<bar> < 2 ^ (e + 1)\<close>, and \<open>2 ^ -1074\<close> below \<open>2 ^ -1022\<close>\<close>
  "ulp r = (if 1 \<le> \<bar>r\<bar> then 2 ^ halvings 1024 \<bar>r\<bar> / 2 ^ 52
            else 1 / (2 ^ doublings 1022 \<bar>r\<bar> * 2 ^ 52))"

definition rnd :: "real \<Rightarrow> double" where
  \<comment> \<open>the double of a real number: round to nearest, ties to even\<close>
  "rnd r =
     (if r = 0 then Fin 0
      else let y = of_int (round_half_even (r / ulp r)) * ulp r
           in if 2 ^ 1024 \<le> \<bar>y\<bar> then (if 0 < r then PInf else NInf) else Fin y)"

fun is_pos :: "double \<Rightarrow> bool" where
  "is_pos (Fin a) = (0 < a)"
| "is_pos PInf = True"
| "is_pos NInf = False"
| "is_pos NaN = False"

fun fadd :: "double \<Rightarrow> double \<Rightarrow> double" where
  \<comment> \<open>\<open>x + y\<close> on floats\<close>
  "fadd NaN y = NaN"
| "fadd x NaN = NaN"
| "fadd (Fin a) (Fin b) = rnd (a + b)"
| "fadd PInf NInf = NaN"
| "fadd NInf PInf = NaN"
| "fadd (Fin a) y = y"
| "fadd x y = x"

fun fmul :: "double \<Rightarrow> double \<Rightarrow> double" where
  \<comment> \<open>\<open>x * y\<close> on floats\<close>
  "fmul NaN y = NaN"
| "fmul x NaN = NaN"
| "fmul (Fin a) (Fin b) = rnd (a * b)"
| "fmul x y = (if x = Fin 0 \<or> y = Fin 0 then NaN
               else if is_pos x = is_pos y then PInf else NInf)"

fun fdiv :: "double \<Rightarrow> double \<Rightarrow> double" where
  \<comment> \<open>the quotient of two floats, for a divisor that is not zero\<close>
  "fdiv NaN y = NaN"
| "fdiv x NaN = NaN"
| "fdiv (Fin a) (Fin b) = rnd (a / b)"
| "fdiv (Fin a) y = Fin 0"
| "fdiv x (Fin b) = (if is_pos x = (0 < b) then PInf else NInf)"
| "fdiv x y = NaN"

definition py_truediv :: "double \<Rightarrow> double \<Rightarrow> error + double" where
  \<comment> \<open>\<open>x / y\<close> on floats: Python raises where IEEE 754 would return an infinity or NaN\<close>
  "py_truediv x y = (if y = Fin 0 then Inl ZeroDivisionError else Inr (fdiv x y))"

definition float_of_nat :: "nat \<Rightarrow> double" where
  \<comment> \<open>the \<open>int\<close> operand of a float operation; exact below \<open>2 ^ 53\<close>, and a list has fewer
      than \<open>2 ^ 63\<close> elements\<close>
  "float_of_nat n = rnd (real n)"

definition py_round :: "double \<Rightarrow> nat \<Rightarrow> double" where
  \<comment> \<open>\<open>round(x, ndigits)\<close> on a float: the decimal with \<open>ndigits\<close> places nearest to the
      value of \<open>x\<close> (a tie to the even last digit), read back as a double; an infinity or NaN
      is returned as it is\<close>
  "py_round x ndigits =
     (case x of
        Fin a \<Rightarrow> rnd (of_int (round_half_even (a * 10 ^ ndigits)) / 10 ^ ndigits)
      | _ \<Rightarrow> x)"

section \<open>Heat content\<close>

text \<open>
  The temperature and the depth of a stored reading come from \<open>REAL\<close> columns: they are
  finite doubles, and \<open>Fin\<close> takes them into the arithmetic. The \<open>int\<close> operands 4186
  and 1000 are exact as floats.
\<close>

record HeatContent =
  total_heat_content_kj_m2 :: double
  average_heat_kj_m2 :: double
  sensors_sampled :: nat

fun heat_loop :: "Store \<Rightarrow> string list \<Rightarrow> double \<times> nat \<Rightarrow> error + double \<times> nat" where
  \<comment> \<open>the \<open>for sensor_id in sensor_ids\<close> loop on \<open>(total_heat, readings_count)\<close>\<close>
  "heat_loop db [] acc = Inr acc"
| "heat_loop db (sid # sids) (total_heat, readings_count) =
     (case get_latest db sid of
        None \<Rightarrow> heat_loop db sids (total_heat, readings_count)
      | Some latest \<Rightarrow>
          (case py_truediv
                  (fmul (fmul (Fin (temperature_c latest)) (Fin (depth_m latest))) (Fin 4186))
                  (Fin 1000) of
             Inl e \<Rightarrow> Inl e
           | Inr heat \<Rightarrow> heat_loop db sids (fadd total_heat heat, readings_count + 1)))"

definition calculate_heat_content :: "Store \<Rightarrow> string list \<Rightarrow> error + HeatContent" where
  \<comment> \<open>\<open>total_heat\<close> starts as the \<open>int\<close> 0, of the same value as the float 0.0\<close>
  "calculate_heat_content db sensor_ids =
     (case heat_loop db sensor_ids (Fin 0, 0) of
        Inl e \<Rightarrow> Inl e
      | Inr (total_heat, readings_count) \<Rightarrow>
          (if readings_count > 0 then
             (case py_truediv total_heat (float_of_nat readings_count) of
                Inl e \<Rightarrow> Inl e
              | Inr average \<Rightarrow>
                  Inr \<lparr> total_heat_content_kj_m2 = py_round total_heat 2,
                        average_heat_kj_m2 = py_round average 2,
                        sensors_sampled = readings_count \<rparr>)
           else
             Inr \<lparr> total_heat_content_kj_m2 = py_round total_heat 2,
                   average_heat_kj_m2 = Fin 0,
                   sensors_sampled = readings_count \<rparr>))"

section \<open>Fleet status and the ASCII heatmap\<close>

record StatusEntry =
  e_id :: string
  e_name :: string
  e_type :: string
  e_lat :: real
  e_lon :: real
  e_depth_m :: real
  e_status :: string
  e_last_reading :: "OceanReading option"

definition fleet_status :: "Store \<Rightarrow> StatusEntry list" where
  "fleet_status db =
     map (\<lambda>sensor. \<lparr> e_id = s_id sensor, e_name = s_name sensor, e_type = s_type sensor,
                      e_lat = s_lat sensor, e_lon = s_lon sensor, e_depth_m = s_depth_m sensor,
                      e_status = s_status sensor,
                      e_last_reading = get_latest db (s_id sensor) \<rparr>)
         (sensors db)"

text \<open>
  The heatmap holds the characters U+2588 and U+2589, which are no \<open>char\<close> of HOL: a text
  of the heatmap is the list of its code points.
\<close>

type_synonym ustr = "nat list"

definition ascii :: "string \<Rightarrow> ustr" where
  "ascii s = map of_char s"

definition rjust :: "nat \<Rightarrow> ustr \<Rightarrow> ustr" where
  \<comment> \<open>the format \<open>{char:>6}\<close>: spaces on the left up to the width\<close>
  "rjust w s = replicate (w - length s) 32 @ s"

definition glyph :: "string \<Rightarrow> OceanReading \<Rightarrow> ustr" where
  \<comment> \<open>the variable \<open>char\<close> of an occupied cell; 9608 = 0x2588, 9609 = 0x2589\<close>
  "glyph parameter last_reading =
     (if parameter = ''temperature'' then
        (let val = temperature_c last_reading
         in if val > 25 then [9608] else if val > 15 then [9609] else ascii ''.'')
      else if parameter = ''salinity'' then
        (let val = salinity_psu last_reading
         in if val > 35 then ascii ''*'' else if val > 33 then ascii ''o'' else ascii ''.'')
      else ascii ''?'')"

definition cell :: "string \<Rightarrow> StatusEntry option \<Rightarrow> ustr" where
  \<comment> \<open>what one \<open>(lat, lon)\<close> adds to its row; \<open>sensor\<close> is the result of \<open>next(..., None)\<close>\<close>
  "cell parameter sensor =
     (case sensor of
        None \<Rightarrow> ascii ''     ?''
      | Some s \<Rightarrow>
          (case e_last_reading s of
             None \<Rightarrow> ascii ''     ?''
           | Some last_reading \<Rightarrow> rjust 6 (glyph parameter last_reading)))"

fun join :: "ustr \<Rightarrow> ustr list \<Rightarrow> ustr" where
  "join sep [] = []"
| "join sep [x] = x"
| "join sep (x # y # ys) = x @ sep @ join sep (y # ys)"

definition heatmap_ascii ::
  "(real \<Rightarrow> ustr) \<Rightarrow> (real \<Rightarrow> ustr) \<Rightarrow> Store \<Rightarrow> string \<Rightarrow> ustr" where
  \<comment> \<open>\<open>fmt_lat\<close> and \<open>fmt_lon\<close> are the float formats \<open>{lat:>3.1f}\<close> and \<open>{lon:>6.1f}\<close>\<close>
  "heatmap_ascii fmt_lat fmt_lon db parameter =
     (let fleet = fleet_status db
      in if fleet = [] \<or> \<not> list_ex (\<lambda>s. e_last_reading s \<noteq> None) fleet
         then ascii ''No data available''
         else
           let lats = sort (remdups (map e_lat fleet));
               lons = sort (remdups (map e_lon fleet));
               header = ascii ''    '' @ concat (map fmt_lon lons);
               row = (\<lambda>lat. fmt_lat lat @
                        concat (map (\<lambda>lon. cell parameter
                                       (find (\<lambda>s. e_lat s = lat \<and> e_lon s = lon) fleet)) lons))
           in join [10] (header # map row (rev lats)))"

section \<open>What a call adds to the anomaly table\<close>

definition new_anomalies :: "Store \<Rightarrow> Store \<Rightarrow> Anomaly list" where
  \<comment> \<open>the rows of \<open>anomalies\<close> that are in the store after a call and were not before it\<close>
  "new_anomalies db db' = drop (length (anomalies db)) (anomalies db')"

section \<open>Stores and quantities the properties are stated on\<close>

definition is_double :: "real \<Rightarrow> bool" where
  \<comment> \<open>the finite doubles: 53 binary digits times a power of two from \<open>2 ^ -1074\<close> on, below
      \<open>2 ^ 1024\<close> in size\<close>
  "is_double y \<longleftrightarrow>
     \<bar>y\<bar> < 2 ^ 1024 \<and> (\<exists>(m::int) (e::nat). \<bar>m\<bar> \<le> 2 ^ 53 \<and> y = of_int m * 2 ^ e / 2 ^ 1074)"

definition heat_of :: "OceanReading \<Rightarrow> double" where
  \<comment> \<open>temperature * depth * 4186 / 1000 of a reading, from left to right\<close>
  "heat_of r = fdiv (fmul (fmul (Fin (temperature_c r)) (Fin (depth_m r))) (Fin 4186)) (Fin 1000)"

definition heats :: "Store \<Rightarrow> string list \<Rightarrow> double list" where
  \<comment> \<open>the heat of the latest reading of each listed sensor that has one, in list order\<close>
  "heats db sensor_ids = map heat_of (List.map_filter (get_latest db) sensor_ids)"

definition fsum :: "double list \<Rightarrow> double" where
  \<comment> \<open>the sum from left to right, from 0\<close>
  "fsum hs = foldl fadd (Fin 0) hs"

definition one_by_one :: Store where
  \<comment> \<open>the demo fleet after one reading of the Pacific buoy: 1 degree at depth 1\<close>
  "one_by_one = snd (ingest_reading 1000 demo_store ''S_PACIFIC_01'' 1 35 8 5 0 (Some 1))"

definition warm_shallow :: Store where
  \<comment> \<open>the demo fleet after one reading of the Pacific buoy: 2.5 degrees at depth 5\<close>
  "warm_shallow = snd (ingest_reading 1000 demo_store ''S_PACIFIC_01'' 2.5 35 8 5 0 (Some 5))"

definition three_readings :: Store where
  \<comment> \<open>three readings of the Pacific buoy, at 1 h, at about 13.9 h and at 25 h of the clock\<close>
  "three_readings =
     snd (ingest_reading 90000000000
       (snd (ingest_reading 50000000000
         (snd (ingest_reading 3600000000 demo_store ''S_PACIFIC_01'' 20 35 8 5 0 None))
          ''S_PACIFIC_01'' 21 35 8 5 0 None))
       ''S_PACIFIC_01'' 22 35 8 5 0 None)"

text \<open>
  The heatmap in the words of its description: the rows are the latitudes of the fleet
  from north to south, the columns its longitudes from west to east, and the cell of a
  latitude and a longitude is decided by the first sensor of the table at exactly these
  coordinates.
\<close>

definition grid_lats :: "Store \<Rightarrow> real list" where
  "grid_lats db = rev (sort (remdups (map s_lat (sensors db))))"

definition grid_lons :: "Store \<Rightarrow> real list" where
  "grid_lons db = sort (remdups (map s_lon (sensors db)))"

definition glyph_code :: "string \<Rightarrow> OceanReading \<Rightarrow> nat" where
  \<comment> \<open>the code point shown for a reading: 9608 and 9609 are the blocks U+2588 and U+2589,
      46 the full stop, 42 the asterisk, 111 the letter o, 63 the question mark\<close>
  "glyph_code parameter r =
     (if parameter = ''temperature''
      then (if 25 < temperature_c r then 9608 else if 15 < temperature_c r then 9609 else 46)
      else if parameter = ''salinity''
      then (if 35 < salinity_psu r then 42 else if 33 < salinity_psu r then 111 else 46)
      else 63)"

definition grid_cell :: "string \<Rightarrow> Store \<Rightarrow> real \<Rightarrow> real \<Rightarrow> ustr" where
  \<comment> \<open>six characters: five spaces, then the question mark or the glyph of the reading\<close>
  "grid_cell parameter db lat lon =
     (case find (\<lambda>s. s_lat s = lat \<and> s_lon s = lon) (sensors db) of
        None \<Rightarrow> [32, 32, 32, 32, 32, 63]
      | Some s \<Rightarrow>
          (case get_latest db (s_id s) of
             None \<Rightarrow> [32, 32, 32, 32, 32, 63]
           | Some r \<Rightarrow> [32, 32, 32, 32, 32, glyph_code parameter r]))"

definition demo_fmt_lat :: "real \<Rightarrow> ustr" where
  \<comment> \<open>the format \<open>{lat:>3.1f}\<close> on the latitudes of the demo fleet\<close>
  "demo_fmt_lat x =
     (if x = 35.5 then ascii ''35.5'' else if x = 45.2 then ascii ''45.2''
      else if x = 78.5 then ascii ''78.5'' else [])"

definition demo_fmt_lon :: "real \<Rightarrow> ustr" where
  \<comment> \<open>the format \<open>{lon:>6.1f}\<close> on the longitudes of the demo fleet\<close>
  "demo_fmt_lon x =
     (if x = - 120.3 then ascii ''-120.3'' else if x = - 30.1 then ascii '' -30.1''
      else if x = 15.2 then ascii ''  15.2'' else [])"

section \<open>Ingest against an unknown sensor\<close>

lemma find_sensor_None:
  "sid \<notin> set (map s_id (sensors db)) \<Longrightarrow> find (\<lambda>s. s_id s = sid) (sensors db) = None"
  by (auto simp: find_None_iff)

text \<open>
  C1. When no row of the sensor table has the given id, \<open>ingest_reading\<close> fails with the
  not-found error and the store it leaves is the store it found: no reading row, no
  change of a sensor's last-reading pointer and no anomaly row.
\<close>

theorem ingest_reading_unknown_sensor:
  assumes "sid \<notin> set (map s_id (sensors db))"
  shows "ingest_reading now db sid temp salinity p o2 current depth
           = (Inl (SensorNotFound sid), db)"
  using find_sensor_None [OF assms] by (simp add: ingest_reading_def)

theorem ingest_reading_unknown_sensor_witness:
  "''S_NOWHERE'' \<notin> set (map s_id (sensors demo_store)) \<and>
   ingest_reading 1000 demo_store ''S_NOWHERE'' 32 35 7.5 3 0 None
     = (Inl (SensorNotFound ''S_NOWHERE''), demo_store)"
proof -
  have h: "''S_NOWHERE'' \<notin> set (map s_id (sensors demo_store))"
    by (simp add: demo_store_def demo_sensor_def)
  from h ingest_reading_unknown_sensor [OF h] show ?thesis by simp
qed

section \<open>What a successful ingest writes\<close>

lemma insert_anomaly_simps:
  "anomalies (insert_anomaly db sid ty v sev ts) = anomalies db @
     [\<lparr> a_sensor_id = sid, a_type = ty, a_value = v, a_severity = sev, a_timestamp = ts \<rparr>]"
  "readings (insert_anomaly db sid ty v sev ts) = readings db"
  "sensors (insert_anomaly db sid ty v sev ts) = sensors db"
  by (simp_all add: insert_anomaly_def)

lemma check_anomalies_anomalies:
  "anomalies (check_anomalies db sid temp p o2 ts) =
     anomalies db
     @ (if temp > 30 then [\<lparr> a_sensor_id = sid, a_type = ''high_temperature'', a_value = temp,
                              a_severity = ''warning'', a_timestamp = ts \<rparr>] else [])
     @ (if p < 7.8 then [\<lparr> a_sensor_id = sid, a_type = ''ocean_acidification'', a_value = p,
                             a_severity = ''critical'', a_timestamp = ts \<rparr>] else [])
     @ (if o2 < 4 then [\<lparr> a_sensor_id = sid, a_type = ''hypoxia'', a_value = o2,
                            a_severity = ''critical'', a_timestamp = ts \<rparr>] else [])"
  by (simp add: check_anomalies_def insert_anomaly_simps)

lemma check_anomalies_readings: "readings (check_anomalies db sid temp p o2 ts) = readings db"
  by (simp add: check_anomalies_def insert_anomaly_simps)

lemma check_anomalies_sensors: "sensors (check_anomalies db sid temp p o2 ts) = sensors db"
  by (simp add: check_anomalies_def insert_anomaly_simps)

lemma find_sensor_Some:
  assumes "sid \<in> set (map s_id (sensors db))"
  shows "\<exists>row. find (\<lambda>s. s_id s = sid) (sensors db) = Some row \<and> s_id row = sid"
proof (cases "find (\<lambda>s. s_id s = sid) (sensors db)")
  case None
  with assms show ?thesis by (auto simp: find_None_iff)
next
  case (Some row)
  then show ?thesis by (auto simp: find_Some_iff)
qed

lemma ingest_reading_Some:
  assumes "find (\<lambda>s. s_id s = sid) (sensors db) = Some row"
  shows "fst (ingest_reading now db sid temp salinity p o2 current depth) =
           Inr \<lparr> sensor_id = sid, temperature_c = temp, salinity_psu = salinity, ph = p,
                 dissolved_o2_mgl = o2, current_ms = current,
                 depth_m = py_or depth (s_depth_m row), timestamp = now \<rparr>"
    and "readings (snd (ingest_reading now db sid temp salinity p o2 current depth)) =
           readings db @ [\<lparr> sensor_id = sid, temperature_c = temp, salinity_psu = salinity, ph = p,
                 dissolved_o2_mgl = o2, current_ms = current,
                 depth_m = py_or depth (s_depth_m row), timestamp = now \<rparr>]"
    and "anomalies (snd (ingest_reading now db sid temp salinity p o2 current depth)) =
           anomalies (check_anomalies db sid temp p o2 now)"
    and "sensors (snd (ingest_reading now db sid temp salinity p o2 current depth)) =
           map (\<lambda>s. if s_id s = sid then s \<lparr> s_last_reading_ts := Some now \<rparr> else s) (sensors db)"
  using assms
  by (simp_all add: ingest_reading_def Let_def check_anomalies_anomalies check_anomalies_readings check_anomalies_sensors)

lemmas store_eval = ingest_reading_def check_anomalies_def insert_anomaly_def py_or_def
  demo_store_def demo_sensor_def new_anomalies_def Let_def

section \<open>The anomaly rules\<close>

text \<open>
  C2. An ingest for a sensor of the table succeeds, and among the anomaly rows it adds
  there is exactly one of type \<open>high_temperature\<close> when the temperature is above 30
  (severity \<open>warning\<close>, value the reading's temperature, the sensor and timestamp of the
  reading) and none when the temperature is 30 or less.
\<close>

theorem high_temperature_anomaly:
  assumes "sid \<in> set (map s_id (sensors db))"
  shows "\<exists>r db'. ingest_reading now db sid temp salinity p o2 current depth = (Inr r, db')
           \<and> temperature_c r = temp
           \<and> filter (\<lambda>a. a_type a = ''high_temperature'') (new_anomalies db db') =
               (if temp > 30
                then [\<lparr> a_sensor_id = sid, a_type = ''high_temperature'', a_value = temp,
                        a_severity = ''warning'', a_timestamp = now \<rparr>]
                else [])"
proof -
  from find_sensor_Some [OF assms] obtain row
    where row: "find (\<lambda>s. s_id s = sid) (sensors db) = Some row" by blast
  obtain res db' where eq: "ingest_reading now db sid temp salinity p o2 current depth = (res, db')"
    by (cases "ingest_reading now db sid temp salinity p o2 current depth")
  from ingest_reading_Some(1) [OF row, of now temp salinity p o2 current depth] eq
  obtain r where r: "res = Inr r" "temperature_c r = temp" by simp
  from ingest_reading_Some(3) [OF row, of now temp salinity p o2 current depth] eq
  have "anomalies db' = anomalies (check_anomalies db sid temp p o2 now)" by simp
  then have "filter (\<lambda>a. a_type a = ''high_temperature'') (new_anomalies db db') =
               (if temp > 30
                then [\<lparr> a_sensor_id = sid, a_type = ''high_temperature'', a_value = temp,
                        a_severity = ''warning'', a_timestamp = now \<rparr>]
                else [])"
    by (simp add: new_anomalies_def check_anomalies_anomalies)
  with eq r show ?thesis by simp
qed

theorem high_temperature_anomaly_witness:
  "''S_PACIFIC_01'' \<in> set (map s_id (sensors demo_store)) \<and>
   (\<exists>r db'. ingest_reading 1000 demo_store ''S_PACIFIC_01'' 32 35 8 5 0 None = (Inr r, db')
      \<and> temperature_c r = 32
      \<and> filter (\<lambda>a. a_type a = ''high_temperature'') (new_anomalies demo_store db') =
            [\<lparr> a_sensor_id = ''S_PACIFIC_01'', a_type = ''high_temperature'', a_value = 32,
               a_severity = ''warning'', a_timestamp = 1000 \<rparr>])"
proof -
  have h: "''S_PACIFIC_01'' \<in> set (map s_id (sensors demo_store))"
    by (simp add: demo_store_def demo_sensor_def)
  from h high_temperature_anomaly [OF h, of 1000 32 35 8 5 0 None] show ?thesis by simp
qed

text \<open>
  C3, as stated, fails: a reading with pH below 7.8 and oxygen below 4 whose temperature is
  above 30 adds three anomaly rows, not two.
\<close>

theorem two_critical_counterexample:
  "(7.5::real) < 7.8 \<and> (3::real) < 4 \<and>
   fst (ingest_reading 1000 demo_store ''S_PACIFIC_01'' 32 35 7.5 3 0 None) \<noteq> Inl (SensorNotFound ''S_PACIFIC_01'') \<and>
   length (new_anomalies demo_store
             (snd (ingest_reading 1000 demo_store ''S_PACIFIC_01'' 32 35 7.5 3 0 None))) = 3"
  by (simp add: store_eval)

text \<open>
  C3, amended. The rows an ingest adds are the rows of the rules that fire, in the order
  temperature, pH, oxygen; each rule looks at its own value only. With pH below 7.8 and
  oxygen below 4 the critical rows are exactly two, one \<open>ocean_acidification\<close> and one
  \<open>hypoxia\<close>, and the call adds two rows when the temperature is 30 or less and three
  when it is above 30. No call adds more than three rows.
\<close>

theorem acidification_and_hypoxia:
  assumes "sid \<in> set (map s_id (sensors db))"
  shows "\<exists>r db'. ingest_reading now db sid temp salinity p o2 current depth = (Inr r, db')
           \<and> new_anomalies db db' =
               (if temp > 30 then [\<lparr> a_sensor_id = sid, a_type = ''high_temperature'', a_value = temp,
                            a_severity = ''warning'', a_timestamp = now \<rparr>] else [])
             @ (if p < 7.8 then [\<lparr> a_sensor_id = sid, a_type = ''ocean_acidification'', a_value = p,
                            a_severity = ''critical'', a_timestamp = now \<rparr>] else [])
             @ (if o2 < 4 then [\<lparr> a_sensor_id = sid, a_type = ''hypoxia'', a_value = o2,
                            a_severity = ''critical'', a_timestamp = now \<rparr>] else [])
           \<and> (p < 7.8 \<and> o2 < 4 \<longrightarrow>
                 filter (\<lambda>a. a_severity a = ''critical'') (new_anomalies db db') =
                   [\<lparr> a_sensor_id = sid, a_type = ''ocean_acidification'', a_value = p,
                      a_severity = ''critical'', a_timestamp = now \<rparr>,
                    \<lparr> a_sensor_id = sid, a_type = ''hypoxia'', a_value = o2,
                      a_severity = ''critical'', a_timestamp = now \<rparr>]
                 \<and> length (new_anomalies db db') = (if temp > 30 then 3 else 2))
           \<and> length (new_anomalies db db') \<le> 3"
proof -
  from find_sensor_Some [OF assms] obtain row
    where row: "find (\<lambda>s. s_id s = sid) (sensors db) = Some row" by blast
  obtain res db' where eq: "ingest_reading now db sid temp salinity p o2 current depth = (res, db')"
    by (cases "ingest_reading now db sid temp salinity p o2 current depth")
  from ingest_reading_Some(1) [OF row, of now temp salinity p o2 current depth] eq
  obtain r where r: "res = Inr r" by simp
  from ingest_reading_Some(3) [OF row, of now temp salinity p o2 current depth] eq
  have "anomalies db' = anomalies (check_anomalies db sid temp p o2 now)" by simp
  then have new: "new_anomalies db db' =
               (if temp > 30 then [\<lparr> a_sensor_id = sid, a_type = ''high_temperature'', a_value = temp,
                            a_severity = ''warning'', a_timestamp = now \<rparr>] else [])
             @ (if p < 7.8 then [\<lparr> a_sensor_id = sid, a_type = ''ocean_acidification'', a_value = p,
                            a_severity = ''critical'', a_timestamp = now \<rparr>] else [])
             @ (if o2 < 4 then [\<lparr> a_sensor_id = sid, a_type = ''hypoxia'', a_value = o2,
                            a_severity = ''critical'', a_timestamp = now \<rparr>] else [])"
    by (simp add: new_anomalies_def check_anomalies_anomalies)
  have "length (new_anomalies db db') \<le> 3"
    by (simp add: new)
  moreover have "p < 7.8 \<and> o2 < 4 \<longrightarrow>
                 filter (\<lambda>a. a_severity a = ''critical'') (new_anomalies db db') =
                   [\<lparr> a_sensor_id = sid, a_type = ''ocean_acidification'', a_value = p,
                      a_severity = ''critical'', a_timestamp = now \<rparr>,
                    \<lparr> a_sensor_id = sid, a_type = ''hypoxia'', a_value = o2,
                      a_severity = ''critical'', a_timestamp = now \<rparr>]
                 \<and> length (new_anomalies db db') = (if temp > 30 then 3 else 2)"
    by (simp add: new)
  ultimately show ?thesis using eq r new by blast
qed

theorem acidification_and_hypoxia_witness:
  "''S_PACIFIC_01'' \<in> set (map s_id (sensors demo_store)) \<and> (7.5::real) < 7.8 \<and> (3::real) < 4 \<and>
   (\<exists>r db'. ingest_reading 1000 demo_store ''S_PACIFIC_01'' 20 34 7.5 3 0 None = (Inr r, db')
      \<and> new_anomalies demo_store db' =
            [\<lparr> a_sensor_id = ''S_PACIFIC_01'', a_type = ''ocean_acidification'', a_value = 7.5,
               a_severity = ''critical'', a_timestamp = 1000 \<rparr>,
             \<lparr> a_sensor_id = ''S_PACIFIC_01'', a_type = ''hypoxia'', a_value = 3,
               a_severity = ''critical'', a_timestamp = 1000 \<rparr>]
      \<and> length (new_anomalies demo_store db') = 2)"
proof -
  have h: "''S_PACIFIC_01'' \<in> set (map s_id (sensors demo_store))"
    by (simp add: demo_store_def demo_sensor_def)
  from h acidification_and_hypoxia [OF h, of 1000 20 34 "7.5" 3 0 None] show ?thesis by simp blast
qed

text \<open>Each of the counts 0, 1, 2 and 3 is reached.\<close>

lemma anomaly_counts_reached:
  "map (\<lambda>(t, p, x). length (new_anomalies demo_store
          (snd (ingest_reading 1000 demo_store ''S_ARCTIC_01'' t 35 p x 0 None))))
       [(20, 8, 5), (32, 8, 5), (20, 7.5, 3), (32, 7.5, 3)] = [0, 1, 2, 3]"
  by (simp add: store_eval)

section \<open>The effective depth\<close>

text \<open>
  The depth of the reading written is the supplied depth when one is supplied and is not
  zero, and the nominal depth of the sensor otherwise.
\<close>

lemma ingest_reading_depth:
  assumes "find (\<lambda>s. s_id s = sid) (sensors db) = Some row"
  shows "fst (ingest_reading now db sid temp salinity p o2 current None) = Inr r
           \<Longrightarrow> depth_m r = s_depth_m row"
    and "d \<noteq> 0 \<Longrightarrow> fst (ingest_reading now db sid temp salinity p o2 current (Some d)) = Inr r
           \<Longrightarrow> depth_m r = d"
    and "fst (ingest_reading now db sid temp salinity p o2 current (Some 0)) = Inr r
           \<Longrightarrow> depth_m r = s_depth_m row"
  using assms by (auto simp: ingest_reading_def Let_def py_or_def)

text \<open>
  C5. A caller who passes the depth 0 gets a reading at the sensor's nominal depth: the
  Pacific buoy's 4000, not 0.
\<close>

theorem ingest_reading_depth_zero:
  "fst (ingest_reading 1000 demo_store ''S_PACIFIC_01'' 20 35 8 5 0 (Some 0)) =
     Inr \<lparr> sensor_id = ''S_PACIFIC_01'', temperature_c = 20, salinity_psu = 35, ph = 8,
           dissolved_o2_mgl = 5, current_ms = 0, depth_m = 4000, timestamp = 1000 \<rparr>"
  by (simp add: store_eval)

section \<open>Deploying a sensor: the type check and the fixed fields\<close>

lemma sensor_type_values:
  "set (map SensorType_value SensorType_members) =
     {''buoy'', ''argo_float'', ''glider'', ''mooring'', ''auv'', ''ctd''}"
  by (simp add: SensorType_members_def)

text \<open>
  C6. A type string outside the six values of \<open>SensorType\<close> makes \<open>deploy_sensor\<close> fail
  with the validation error and leave the store as it was; a type string among the six
  never gives the validation error.
\<close>

theorem deploy_sensor_type_check:
  "(ty \<notin> {''buoy'', ''argo_float'', ''glider'', ''mooring'', ''auv'', ''ctd''} \<longrightarrow>
      deploy_sensor uuid_hex db name ty lat lon d = (Inl InvalidType, db))
   \<and> (ty \<in> {''buoy'', ''argo_float'', ''glider'', ''mooring'', ''auv'', ''ctd''} \<longrightarrow>
      fst (deploy_sensor uuid_hex db name ty lat lon d) \<noteq> Inl InvalidType)"
  unfolding deploy_sensor_def sensor_type_values by (simp add: Let_def)

theorem deploy_sensor_type_check_witness:
  "''boat'' \<notin> {''buoy'', ''argo_float'', ''glider'', ''mooring'', ''auv'', ''ctd''}
   \<and> deploy_sensor ''3f2a9c0b7e1d4f55a0b1c2d3e4f5a6b7'' demo_store ''Test Buoy'' ''boat'' 10 20 100
        = (Inl InvalidType, demo_store)
   \<and> ''buoy'' \<in> {''buoy'', ''argo_float'', ''glider'', ''mooring'', ''auv'', ''ctd''}
   \<and> fst (deploy_sensor ''3f2a9c0b7e1d4f55a0b1c2d3e4f5a6b7'' demo_store ''Test Buoy'' ''buoy'' 10 20 100)
        \<noteq> Inl InvalidType"
  using deploy_sensor_type_check [of "''boat''" "''3f2a9c0b7e1d4f55a0b1c2d3e4f5a6b7''" demo_store "''Test Buoy''" 10 20 100]
        deploy_sensor_type_check [of "''buoy''" "''3f2a9c0b7e1d4f55a0b1c2d3e4f5a6b7''" demo_store "''Test Buoy''" 10 20 100]
  by simp

lemma find_after_None: "find P xs = None \<Longrightarrow> find P (xs @ ys) = find P ys"
  by (induction xs) (auto split: if_splits)

text \<open>
  C10. With a type of the enumeration and an id that no row has yet, \<open>deploy_sensor\<close>
  succeeds; the sensor it returns has status \<open>active\<close>, no last-reading timestamp and
  the id \<open>S_\<close> followed by the first eight characters of the drawn UUID in upper case,
  whatever name, type, position and depth the caller passes; that sensor is the row
  appended to the table and the row found under its id.
\<close>

theorem deploy_sensor_active:
  assumes "ty \<in> set (map SensorType_value SensorType_members)"
      and "''S_'' @ map upper_char (take 8 uuid_hex) \<notin> set (map s_id (sensors db))"
  shows "\<exists>s db'. deploy_sensor uuid_hex db name ty lat lon d = (Inr s, db')
           \<and> s_status s = ''active'' \<and> s_last_reading_ts s = None
           \<and> s_id s = ''S_'' @ map upper_char (take 8 uuid_hex) \<and> take 2 (s_id s) = ''S_''
           \<and> s_name s = name \<and> s_type s = ty \<and> s_lat s = lat \<and> s_lon s = lon \<and> s_depth_m s = d
           \<and> sensors db' = sensors db @ [s]
           \<and> find (\<lambda>x. s_id x = s_id s) (sensors db') = Some s"
proof -
  let ?i = "''S_'' @ map upper_char (take 8 uuid_hex)"
  let ?s = "\<lparr> s_id = ?i, s_name = name, s_type = ty, s_lat = lat, s_lon = lon, s_depth_m = d,
              s_status = ''active'', s_last_reading_ts = None \<rparr>"
  have eq: "deploy_sensor uuid_hex db name ty lat lon d = (Inr ?s, db \<lparr> sensors := sensors db @ [?s] \<rparr>)"
    using assms by (simp add: deploy_sensor_def Let_def)
  have "find (\<lambda>x. s_id x = ?i) (sensors db) = None"
    by (rule find_sensor_None [OF assms(2)])
  then have "find (\<lambda>x. s_id x = s_id ?s) (sensors db @ [?s]) = Some ?s"
    by (simp add: find_after_None)
  with eq show ?thesis by simp
qed

theorem deploy_sensor_active_witness:
  "''buoy'' \<in> set (map SensorType_value SensorType_members)
   \<and> ''S_'' @ map upper_char (take 8 ''3f2a9c0b7e1d4f55a0b1c2d3e4f5a6b7'') \<notin> set (map s_id (sensors demo_store))
   \<and> (\<exists>s db'. deploy_sensor ''3f2a9c0b7e1d4f55a0b1c2d3e4f5a6b7'' demo_store ''Test Buoy'' ''buoy'' 10 20 100 = (Inr s, db')
           \<and> s_status s = ''active'' \<and> s_last_reading_ts s = None
           \<and> s_id s = ''S_3F2A9C0B''
           \<and> sensors db' = sensors demo_store @ [s])"
proof -
  have h1: "''buoy'' \<in> set (map SensorType_value SensorType_members)"
    by (simp add: SensorType_members_def)
  have u: "''S_'' @ map upper_char (take 8 ''3f2a9c0b7e1d4f55a0b1c2d3e4f5a6b7'') = ''S_3F2A9C0B''"
    by code_simp
  have h2: "''S_'' @ map upper_char (take 8 ''3f2a9c0b7e1d4f55a0b1c2d3e4f5a6b7'') \<notin> set (map s_id (sensors demo_store))"
    unfolding u by (simp add: demo_store_def demo_sensor_def)
  from h1 h2 deploy_sensor_active [OF h1 h2, of "''Test Buoy''" 10 20 100] show ?thesis
    unfolding u by simp blast
qed

section \<open>The latest reading and the history\<close>

lemma order_by_timestamp_desc_set: "set (order_by_timestamp_desc xs) = set xs"
  by (simp add: order_by_timestamp_desc_def)

lemma order_by_timestamp_desc_mset: "mset (order_by_timestamp_desc xs) = mset xs"
  by (simp add: order_by_timestamp_desc_def)

lemma order_by_timestamp_desc_sorted:
  "sorted_wrt (\<lambda>a b. timestamp a \<ge> timestamp b) (order_by_timestamp_desc xs)"
proof -
  have "sorted (map (\<lambda>r. - timestamp r) (sort_key (\<lambda>r. - timestamp r) xs))"
    by (rule sorted_sort_key)
  then show ?thesis
    by (simp add: order_by_timestamp_desc_def sorted_map)
qed

lemma order_by_timestamp_desc_head:
  assumes "r \<in> set xs" and "\<forall>x\<in>set xs. x \<noteq> r \<longrightarrow> timestamp x < timestamp r"
  shows "\<exists>rest. order_by_timestamp_desc xs = r # rest"
proof (cases "order_by_timestamp_desc xs")
  case Nil
  with assms(1) order_by_timestamp_desc_set [of xs] show ?thesis by simp
next
  case (Cons y ys)
  have y_in: "y \<in> set xs"
    using Cons order_by_timestamp_desc_set [of xs] by (metis list.set_intros(1))
  have "y = r"
  proof (rule ccontr)
    assume "y \<noteq> r"
    with assms(2) y_in have lt: "timestamp y < timestamp r" by blast
    from assms(1) order_by_timestamp_desc_set [of xs] Cons \<open>y \<noteq> r\<close> have "r \<in> set ys" by auto
    with order_by_timestamp_desc_sorted [of xs] Cons have "timestamp r \<le> timestamp y" by auto
    with lt show False by simp
  qed
  with Cons show ?thesis by simp
qed

lemmas query_eval = get_latest_def order_by_timestamp_desc_def

text \<open>
  C4, as stated, fails: when the clock has gone back between two ingests (here from 2000
  to 1000), \<open>get_latest\<close> after the second ingest returns the first reading, whose
  timestamp is the greater one.
\<close>

theorem get_latest_after_ingest_counterexample:
  "fst (ingest_reading 1000 (snd (ingest_reading 2000 demo_store ''S_PACIFIC_01'' 20 35 8 5 0 None))
          ''S_PACIFIC_01'' 25 35 8 5 0 None)
     = Inr \<lparr> sensor_id = ''S_PACIFIC_01'', temperature_c = 25, salinity_psu = 35, ph = 8,
             dissolved_o2_mgl = 5, current_ms = 0, depth_m = 4000, timestamp = 1000 \<rparr>
   \<and> get_latest
       (snd (ingest_reading 1000 (snd (ingest_reading 2000 demo_store ''S_PACIFIC_01'' 20 35 8 5 0 None))
          ''S_PACIFIC_01'' 25 35 8 5 0 None)) ''S_PACIFIC_01''
     = Some \<lparr> sensor_id = ''S_PACIFIC_01'', temperature_c = 20, salinity_psu = 35, ph = 8,
             dissolved_o2_mgl = 5, current_ms = 0, depth_m = 4000, timestamp = 2000 \<rparr>"
  by (simp add: store_eval query_eval)

text \<open>
  C4, amended. For a sensor of the table whose stored readings all have a timestamp
  strictly before the clock value of the ingest, the ingest succeeds and \<open>get_latest\<close>
  on the store it leaves returns the reading just ingested: the sensor id, temperature,
  salinity, pH, oxygen and current of the call, the effective depth and the timestamp of
  the ingest.
\<close>

theorem get_latest_after_ingest:
  assumes "sid \<in> set (map s_id (sensors db))"
      and "\<forall>x\<in>set (readings db). sensor_id x = sid \<longrightarrow> timestamp x < now"
  shows "\<exists>row r db'. find (\<lambda>s. s_id s = sid) (sensors db) = Some row
           \<and> ingest_reading now db sid temp salinity p o2 current depth = (Inr r, db')
           \<and> r = \<lparr> sensor_id = sid, temperature_c = temp, salinity_psu = salinity, ph = p,
                    dissolved_o2_mgl = o2, current_ms = current,
                    depth_m = py_or depth (s_depth_m row), timestamp = now \<rparr>
           \<and> get_latest db' sid = Some r"
proof -
  from find_sensor_Some [OF assms(1)] obtain row
    where row: "find (\<lambda>s. s_id s = sid) (sensors db) = Some row" by blast
  let ?r = "\<lparr> sensor_id = sid, temperature_c = temp, salinity_psu = salinity, ph = p,
                    dissolved_o2_mgl = o2, current_ms = current,
                    depth_m = py_or depth (s_depth_m row), timestamp = now \<rparr>"
  obtain res db' where eq: "ingest_reading now db sid temp salinity p o2 current depth = (res, db')"
    by (cases "ingest_reading now db sid temp salinity p o2 current depth")
  from ingest_reading_Some(1) [OF row, of now temp salinity p o2 current depth] eq
  have res: "res = Inr ?r" by simp
  from ingest_reading_Some(2) [OF row, of now temp salinity p o2 current depth] eq
  have rd: "readings db' = readings db @ [?r]" by simp
  let ?xs = "filter (\<lambda>x. sensor_id x = sid) (readings db')"
  have in_xs: "?r \<in> set ?xs" by (simp add: rd)
  have "\<forall>x\<in>set ?xs. x \<noteq> ?r \<longrightarrow> timestamp x < timestamp ?r"
    using assms(2) by (auto simp: rd)
  from order_by_timestamp_desc_head [OF in_xs this]
  have "get_latest db' sid = Some ?r" by (auto simp: get_latest_def)
  with row eq res show ?thesis by simp
qed

theorem get_latest_after_ingest_witness:
  "''S_PACIFIC_01'' \<in> set (map s_id (sensors demo_store))
   \<and> map timestamp (readings (snd (ingest_reading 1000 demo_store ''S_PACIFIC_01'' 20 35 8 5 0 None)))
        = [1000]
   \<and> get_latest (snd (ingest_reading 2000 (snd (ingest_reading 1000 demo_store ''S_PACIFIC_01'' 20 35 8 5 0 None))
          ''S_PACIFIC_01'' 32 35 8 5 0 (Some 100))) ''S_PACIFIC_01''
       = Some \<lparr> sensor_id = ''S_PACIFIC_01'', temperature_c = 32, salinity_psu = 35, ph = 8,
             dissolved_o2_mgl = 5, current_ms = 0, depth_m = 100, timestamp = 2000 \<rparr>"
proof -
  let ?db = "snd (ingest_reading 1000 demo_store ''S_PACIFIC_01'' 20 35 8 5 0 None)"
  have h1: "''S_PACIFIC_01'' \<in> set (map s_id (sensors ?db))"
    by (simp add: store_eval)
  have h2: "\<forall>x\<in>set (readings ?db). sensor_id x = ''S_PACIFIC_01'' \<longrightarrow> timestamp x < 2000"
    by (simp add: store_eval)
  have h0: "''S_PACIFIC_01'' \<in> set (map s_id (sensors demo_store))"
    by (simp add: store_eval)
  have f: "find (\<lambda>s. s_id s = ''S_PACIFIC_01'') (sensors ?db) =
     Some ((demo_sensor ''S_PACIFIC_01'' ''Pacific Buoy'' ''buoy'' 35.5 (-120.3) 4000) \<lparr> s_last_reading_ts := Some 1000 \<rparr>)"
    by (simp add: store_eval)
  from get_latest_after_ingest [OF h1 h2, of 32 35 8 5 0 "Some 100"] f
  have "get_latest (snd (ingest_reading 2000 ?db ''S_PACIFIC_01'' 32 35 8 5 0 (Some 100))) ''S_PACIFIC_01''
       = Some \<lparr> sensor_id = ''S_PACIFIC_01'', temperature_c = 32, salinity_psu = 35, ph = 8,
             dissolved_o2_mgl = 5, current_ms = 0, depth_m = 100, timestamp = 2000 \<rparr>"
    by (auto simp: py_or_def)
  moreover have "map timestamp (readings ?db) = [1000]"
    by (simp add: store_eval)
  ultimately show ?thesis using h0 by simp
qed

lemma timedelta_hours_range:
  "timedelta_hours h =
     (if - 23999999976 \<le> h \<and> h \<le> 23999999999 then Inr (h * 3600000000) else Inl OverflowError)"
proof -
  have "h * 3600000000 div 86400000000 = h div 24"
  proof -
    have "h * 3600000000 div 86400000000 = (3600000000 * h) div (3600000000 * 24)"
      by (simp add: mult.commute)
    also have "\<dots> = h div 24" by (rule div_mult_mult1) simp
    finally show ?thesis .
  qed
  moreover have "(h div 24 < - 999999999 \<or> 999999999 < h div 24)
                   \<longleftrightarrow> \<not> (- 23999999976 \<le> h \<and> h \<le> 23999999999)"
    by presburger
  ultimately show ?thesis by (simp add: timedelta_hours_def Let_def)
qed

text \<open>
  C7, as stated, fails: at noon of 2026-11-03 a window of \<open>10 ^ 9\<close> hours puts the cutoff
  before the year 1, and \<open>get_history\<close> raises \<open>OverflowError\<close> instead of returning
  the readings of the sensor.
\<close>

theorem get_history_window_counterexample:
  "get_history 63929304000000000 three_readings ''S_PACIFIC_01'' 1000000000 = Inl OverflowError"
  by (simp add: get_history_def timedelta_hours_range datetime_sub_def datetime_max_def)

text \<open>
  C7, amended. When the window is a \<open>timedelta\<close> (from -23999999976 to 23999999999 hours)
  and the clock minus the window is a \<open>datetime\<close> (from the year 1 to the year 9999),
  \<open>get_history\<close> returns, each as often as the table holds it, the readings of the
  sensor whose timestamp is strictly greater than the clock minus the window (an hour is
  3600000000 microseconds), and no other row, in descending order of timestamp. For every
  other window it raises \<open>OverflowError\<close>.
\<close>

theorem get_history_window:
  "(- 23999999976 \<le> hours \<and> hours \<le> 23999999999
      \<and> 0 \<le> now - hours * 3600000000 \<and> now - hours * 3600000000 \<le> 315537897599999999
    \<longrightarrow> (\<exists>rows. get_history now db sid hours = Inr rows
           \<and> mset rows =
               filter_mset (\<lambda>r. sensor_id r = sid \<and> now - hours * 3600000000 < timestamp r)
                           (mset (readings db))
           \<and> sorted_wrt (\<lambda>a b. timestamp b \<le> timestamp a) rows))
   \<and> (\<not> (- 23999999976 \<le> hours \<and> hours \<le> 23999999999
      \<and> 0 \<le> now - hours * 3600000000 \<and> now - hours * 3600000000 \<le> 315537897599999999)
    \<longrightarrow> get_history now db sid hours = Inl OverflowError)"
  by (auto simp: get_history_def timedelta_hours_range datetime_sub_def datetime_max_def
        order_by_timestamp_desc_mset order_by_timestamp_desc_sorted)

theorem get_history_window_witness:
  "map timestamp (readings three_readings) = [3600000000, 50000000000, 90000000000]
   \<and> (\<exists>rows. get_history 90000000000 three_readings ''S_PACIFIC_01'' 24 = Inr rows
         \<and> map timestamp rows = [90000000000, 50000000000]
         \<and> sorted_wrt (\<lambda>a b. timestamp b \<le> timestamp a) rows)
   \<and> get_history 90000000000 three_readings ''S_PACIFIC_01'' 26 = Inl OverflowError"
proof -
  have 1: "map timestamp (readings three_readings) = [3600000000, 50000000000, 90000000000]"
    by (simp add: three_readings_def store_eval)
  from get_history_window [of 24 90000000000 three_readings "''S_PACIFIC_01''"]
  obtain rows where rows: "get_history 90000000000 three_readings ''S_PACIFIC_01'' 24 = Inr rows"
      "sorted_wrt (\<lambda>a b. timestamp b \<le> timestamp a) rows"
    by auto
  have "get_history 90000000000 three_readings ''S_PACIFIC_01'' 24 =
          Inr (order_by_timestamp_desc
                 (filter (\<lambda>r. sensor_id r = ''S_PACIFIC_01'' \<and> 3600000000 < timestamp r)
                         (readings three_readings)))"
    by (simp add: get_history_def timedelta_hours_range datetime_sub_def datetime_max_def)
  with rows(1) have "map timestamp rows = [90000000000, 50000000000]"
    by (simp add: three_readings_def store_eval query_eval)
  moreover from get_history_window [of 26 90000000000 three_readings "''S_PACIFIC_01''"]
  have "get_history 90000000000 three_readings ''S_PACIFIC_01'' 26 = Inl OverflowError"
    by simp
  ultimately show ?thesis using 1 rows by simp
qed

section \<open>The heatmap\<close>

lemma find_map_comp: "find P (map f xs) = map_option f (find (\<lambda>x. P (f x)) xs)"
  by (induction xs) simp_all

lemma glyph_glyph_code: "glyph parameter r = [glyph_code parameter r]"
  by (simp add: glyph_def glyph_code_def ascii_def Let_def)

lemma replicate_5: "replicate 5 x = [x, x, x, x, x]"
proof -
  have "(5::nat) = Suc (Suc (Suc (Suc (Suc 0))))" by simp
  then show ?thesis by (simp only: replicate.simps)
qed

lemma cell_grid_cell:
  "cell parameter (find (\<lambda>s. e_lat s = lat \<and> e_lon s = lon) (fleet_status db))
     = grid_cell parameter db lat lon"
proof -
  have "find (\<lambda>s. e_lat s = lat \<and> e_lon s = lon) (fleet_status db) =
          map_option (\<lambda>sensor. \<lparr> e_id = s_id sensor, e_name = s_name sensor, e_type = s_type sensor,
                      e_lat = s_lat sensor, e_lon = s_lon sensor, e_depth_m = s_depth_m sensor,
                      e_status = s_status sensor,
                      e_last_reading = get_latest db (s_id sensor) \<rparr>)
            (find (\<lambda>s. s_lat s = lat \<and> s_lon s = lon) (sensors db))"
    by (simp add: fleet_status_def find_map_comp)
  then show ?thesis
    by (simp add: cell_def grid_cell_def glyph_glyph_code rjust_def replicate_5 ascii_def
          split: option.splits)
qed

lemma fleet_status_coordinates:
  "map e_lat (fleet_status db) = map s_lat (sensors db)"
  "map e_lon (fleet_status db) = map s_lon (sensors db)"
  by (simp_all add: fleet_status_def comp_def)

lemma fleet_status_no_data:
  "(fleet_status db = [] \<or> \<not> list_ex (\<lambda>s. e_last_reading s \<noteq> None) (fleet_status db))
     \<longleftrightarrow> (\<forall>s\<in>set (sensors db). get_latest db (s_id s) = None)"
  by (auto simp: fleet_status_def list_ex_iff)

lemma heatmap_ascii_no_data:
  assumes "\<forall>s\<in>set (sensors db). get_latest db (s_id s) = None"
  shows "heatmap_ascii fmt_lat fmt_lon db parameter = ascii ''No data available''"
  using assms fleet_status_no_data [of db] by (simp add: heatmap_ascii_def Let_def)

lemma heatmap_ascii_grid:
  assumes "\<exists>s\<in>set (sensors db). get_latest db (s_id s) \<noteq> None"
  shows "heatmap_ascii fmt_lat fmt_lon db parameter =
           join [10] ((ascii ''    '' @ concat (map fmt_lon (grid_lons db))) #
                      map (\<lambda>lat. fmt_lat lat @ concat (map (grid_cell parameter db lat) (grid_lons db)))
                          (grid_lats db))"
proof -
  have "\<not> (fleet_status db = [] \<or> \<not> list_ex (\<lambda>s. e_last_reading s \<noteq> None) (fleet_status db))"
    unfolding fleet_status_no_data using assms by simp
  then show ?thesis
    by (simp add: heatmap_ascii_def Let_def fleet_status_coordinates cell_grid_cell
          grid_lats_def grid_lons_def)
qed

lemma grid_cell_unrecognized:
  assumes "parameter \<noteq> ''temperature''" and "parameter \<noteq> ''salinity''"
  shows "grid_cell parameter db lat lon = [32, 32, 32, 32, 32, 63]"
  using assms by (simp add: grid_cell_def glyph_code_def split: option.splits)

lemma get_latest_one_by_one:
  "get_latest one_by_one ''S_PACIFIC_01'' =
     Some \<lparr> sensor_id = ''S_PACIFIC_01'', temperature_c = 1, salinity_psu = 35, ph = 8,
             dissolved_o2_mgl = 5, current_ms = 0, depth_m = 1, timestamp = 1000 \<rparr>"
  "get_latest one_by_one ''S_ATLANTIC_01'' = None"
  "get_latest one_by_one ''S_ARCTIC_01'' = None"
  by (simp_all add: one_by_one_def store_eval query_eval)

lemma sensors_one_by_one:
  "sensors one_by_one =
     [(demo_sensor ''S_PACIFIC_01'' ''Pacific Buoy'' ''buoy'' 35.5 (-120.3) 4000)
        \<lparr> s_last_reading_ts := Some 1000 \<rparr>,
      demo_sensor ''S_ATLANTIC_01'' ''Atlantic Mooring'' ''mooring'' 45.2 (-30.1) 5000,
      demo_sensor ''S_ARCTIC_01'' ''Arctic Glider'' ''glider'' 78.5 15.2 3000]"
  by (simp add: one_by_one_def ingest_reading_def check_anomalies_def insert_anomaly_def
        py_or_def demo_store_def Let_def demo_sensor_def)

lemma grid_one_by_one:
  "grid_lats one_by_one = [78.5, 45.2, 35.5]"
  "grid_lons one_by_one = [- 120.3, - 30.1, 15.2]"
  by (simp_all add: grid_lats_def grid_lons_def sensors_one_by_one demo_sensor_def)

lemma grid_cells_one_by_one:
  "map (\<lambda>lat. map (grid_cell p one_by_one lat) [- 120.3, - 30.1, 15.2]) [78.5, 45.2, 35.5] =
     [ [ [32, 32, 32, 32, 32, 63], [32, 32, 32, 32, 32, 63], [32, 32, 32, 32, 32, 63] ],
       [ [32, 32, 32, 32, 32, 63], [32, 32, 32, 32, 32, 63], [32, 32, 32, 32, 32, 63] ],
       [ [32, 32, 32, 32, 32, glyph_code p
           \<lparr> sensor_id = ''S_PACIFIC_01'', temperature_c = 1, salinity_psu = 35, ph = 8,
             dissolved_o2_mgl = 5, current_ms = 0, depth_m = 1, timestamp = 1000 \<rparr>],
         [32, 32, 32, 32, 32, 63], [32, 32, 32, 32, 32, 63] ] ]"
  by (simp add: grid_cell_def sensors_one_by_one demo_sensor_def get_latest_one_by_one)

lemma has_reading_one_by_one: "\<exists>s\<in>set (sensors one_by_one). get_latest one_by_one (s_id s) \<noteq> None"
  by (simp add: sensors_one_by_one demo_sensor_def get_latest_one_by_one)

lemma heatmap_one_by_one:
  "heatmap_ascii demo_fmt_lat demo_fmt_lon one_by_one p =
     join [10]
       [ascii ''    -120.3 -30.1  15.2'',
        ascii ''78.5     ?     ?     ?'',
        ascii ''45.2     ?     ?     ?'',
        ascii ''35.5'' @ [32, 32, 32, 32, 32, glyph_code p
           \<lparr> sensor_id = ''S_PACIFIC_01'', temperature_c = 1, salinity_psu = 35, ph = 8,
             dissolved_o2_mgl = 5, current_ms = 0, depth_m = 1, timestamp = 1000 \<rparr>]
          @ ascii ''     ?     ?'']"
  using grid_cells_one_by_one [of p]
  by (simp add: heatmap_ascii_grid [OF has_reading_one_by_one] grid_one_by_one
        demo_fmt_lat_def demo_fmt_lon_def ascii_def)

text \<open>
  C9, as stated, fails: in the heatmap of the demo fleet for the unrecognized parameter
  \<open>depth\<close>, the Pacific buoy has a reading, the Arctic glider has none, and the cell of the
  one (last row, first column) and of the other (first row, last column) are the same
  text, five spaces and a question mark.
\<close>

theorem heatmap_glyphs_counterexample:
  "get_latest one_by_one ''S_PACIFIC_01'' \<noteq> None
   \<and> get_latest one_by_one ''S_ARCTIC_01'' = None
   \<and> heatmap_ascii demo_fmt_lat demo_fmt_lon one_by_one ''depth'' =
       join [10]
         [ascii ''    -120.3 -30.1  15.2'',
          ascii ''78.5     ?     ?     ?'',
          ascii ''45.2     ?     ?     ?'',
          ascii ''35.5     ?     ?     ?'']"
  by (simp add: get_latest_one_by_one heatmap_one_by_one glyph_code_def ascii_def)

text \<open>
  C9, amended. When no sensor has a reading the heatmap is the text
  \<open>No data available\<close>. Otherwise it is a header line and one line for each latitude of the
  fleet, from north to south, with one six-character cell for each longitude of the fleet,
  from west to east; the cell is decided by the first sensor of the table at exactly these
  coordinates. It is five spaces and a question mark when there is no such sensor or that
  sensor has no reading, and five spaces and the glyph of its latest reading otherwise.
  For a parameter other than \<open>temperature\<close> and \<open>salinity\<close> the glyph is the question mark
  too, so that every cell of the heatmap is five spaces and a question mark. For
  \<open>temperature\<close> the glyph is U+2588 above 25, U+2589 above 15 and the full stop
  otherwise: three distinct characters, none of them the question mark.
\<close>

theorem heatmap_glyphs:
  "((\<forall>s\<in>set (sensors db). get_latest db (s_id s) = None) \<longrightarrow>
      heatmap_ascii fmt_lat fmt_lon db parameter = ascii ''No data available'')
   \<and> ((\<exists>s\<in>set (sensors db). get_latest db (s_id s) \<noteq> None) \<longrightarrow>
      heatmap_ascii fmt_lat fmt_lon db parameter =
        join [10] ((ascii ''    '' @ concat (map fmt_lon (grid_lons db))) #
                   map (\<lambda>lat. fmt_lat lat @ concat (map (grid_cell parameter db lat) (grid_lons db)))
                       (grid_lats db)))
   \<and> ((\<exists>s\<in>set (sensors db). get_latest db (s_id s) \<noteq> None)
        \<and> parameter \<noteq> ''temperature'' \<and> parameter \<noteq> ''salinity'' \<longrightarrow>
      heatmap_ascii fmt_lat fmt_lon db parameter =
        join [10] ((ascii ''    '' @ concat (map fmt_lon (grid_lons db))) #
                   map (\<lambda>lat. fmt_lat lat
                                @ concat (replicate (length (grid_lons db)) [32, 32, 32, 32, 32, 63]))
                       (grid_lats db)))
   \<and> (find (\<lambda>s. s_lat s = lat \<and> s_lon s = lon) (sensors db) = None
        \<or> (\<exists>s. find (\<lambda>s. s_lat s = lat \<and> s_lon s = lon) (sensors db) = Some s
                \<and> get_latest db (s_id s) = None) \<longrightarrow>
      grid_cell parameter db lat lon = [32, 32, 32, 32, 32, 63])
   \<and> (\<forall>s r. find (\<lambda>s. s_lat s = lat \<and> s_lon s = lon) (sensors db) = Some s
          \<and> get_latest db (s_id s) = Some r \<longrightarrow>
        grid_cell ''temperature'' db lat lon =
          [32, 32, 32, 32, 32,
           if 25 < temperature_c r then 9608 else if 15 < temperature_c r then 9609 else 46]
        \<and> (parameter \<noteq> ''temperature'' \<and> parameter \<noteq> ''salinity'' \<longrightarrow>
             grid_cell parameter db lat lon = [32, 32, 32, 32, 32, 63]))"
proof (intro conjI impI allI)
  assume "\<forall>s\<in>set (sensors db). get_latest db (s_id s) = None"
  then show "heatmap_ascii fmt_lat fmt_lon db parameter = ascii ''No data available''"
    by (rule heatmap_ascii_no_data)
next
  assume "\<exists>s\<in>set (sensors db). get_latest db (s_id s) \<noteq> None"
  then show "heatmap_ascii fmt_lat fmt_lon db parameter =
        join [10] ((ascii ''    '' @ concat (map fmt_lon (grid_lons db))) #
                   map (\<lambda>lat. fmt_lat lat @ concat (map (grid_cell parameter db lat) (grid_lons db)))
                       (grid_lats db))"
    by (rule heatmap_ascii_grid)
next
  assume a: "(\<exists>s\<in>set (sensors db). get_latest db (s_id s) \<noteq> None)
        \<and> parameter \<noteq> ''temperature'' \<and> parameter \<noteq> ''salinity''"
  then have "grid_cell parameter db lat = (\<lambda>lon. [32, 32, 32, 32, 32, 63])" for lat
    by (auto simp: grid_cell_unrecognized)
  with a show "heatmap_ascii fmt_lat fmt_lon db parameter =
        join [10] ((ascii ''    '' @ concat (map fmt_lon (grid_lons db))) #
                   map (\<lambda>lat. fmt_lat lat
                                @ concat (replicate (length (grid_lons db)) [32, 32, 32, 32, 32, 63]))
                       (grid_lats db))"
    by (simp add: heatmap_ascii_grid map_replicate_const)
next
  assume "find (\<lambda>s. s_lat s = lat \<and> s_lon s = lon) (sensors db) = None
        \<or> (\<exists>s. find (\<lambda>s. s_lat s = lat \<and> s_lon s = lon) (sensors db) = Some s
                \<and> get_latest db (s_id s) = None)"
  then show "grid_cell parameter db lat lon = [32, 32, 32, 32, 32, 63]"
    by (auto simp: grid_cell_def)
next
  fix s r
  assume "find (\<lambda>s. s_lat s = lat \<and> s_lon s = lon) (sensors db) = Some s
          \<and> get_latest db (s_id s) = Some r"
  then show "grid_cell ''temperature'' db lat lon =
          [32, 32, 32, 32, 32,
           if 25 < temperature_c r then 9608 else if 15 < temperature_c r then 9609 else 46]"
    by (simp add: grid_cell_def glyph_code_def)
next
  fix s r
  assume "find (\<lambda>s. s_lat s = lat \<and> s_lon s = lon) (sensors db) = Some s
          \<and> get_latest db (s_id s) = Some r"
    and "parameter \<noteq> ''temperature'' \<and> parameter \<noteq> ''salinity''"
  then show "grid_cell parameter db lat lon = [32, 32, 32, 32, 32, 63]"
    by (simp add: grid_cell_unrecognized)
qed

theorem heatmap_glyphs_witness:
  "heatmap_ascii demo_fmt_lat demo_fmt_lon demo_store ''temperature'' = ascii ''No data available''
   \<and> get_latest one_by_one ''S_PACIFIC_01'' =
       Some \<lparr> sensor_id = ''S_PACIFIC_01'', temperature_c = 1, salinity_psu = 35, ph = 8,
               dissolved_o2_mgl = 5, current_ms = 0, depth_m = 1, timestamp = 1000 \<rparr>
   \<and> heatmap_ascii demo_fmt_lat demo_fmt_lon one_by_one ''temperature'' =
       join [10]
         [ascii ''    -120.3 -30.1  15.2'',
          ascii ''78.5     ?     ?     ?'',
          ascii ''45.2     ?     ?     ?'',
          ascii ''35.5     .     ?     ?'']
   \<and> heatmap_ascii demo_fmt_lat demo_fmt_lon one_by_one ''salt'' =
       join [10]
         [ascii ''    -120.3 -30.1  15.2'',
          ascii ''78.5     ?     ?     ?'',
          ascii ''45.2     ?     ?     ?'',
          ascii ''35.5     ?     ?     ?'']"
proof -
  have none: "\<forall>s\<in>set (sensors demo_store). get_latest demo_store (s_id s) = None"
    by (simp add: demo_store_def demo_sensor_def query_eval)
  have some: "\<exists>s\<in>set (sensors one_by_one). get_latest one_by_one (s_id s) \<noteq> None"
    by (rule has_reading_one_by_one)
  have other: "''salt'' \<noteq> ''temperature''" "''salt'' \<noteq> ''salinity''" by simp_all
  note t = heatmap_glyphs [of demo_store demo_fmt_lat demo_fmt_lon "''temperature''"]
  note w = heatmap_glyphs [of one_by_one demo_fmt_lat demo_fmt_lon "''temperature''"]
  note q = heatmap_glyphs [of one_by_one demo_fmt_lat demo_fmt_lon "''salt''"]
  have 1: "heatmap_ascii demo_fmt_lat demo_fmt_lon demo_store ''temperature'' = ascii ''No data available''"
    using t none by blast
  have "heatmap_ascii demo_fmt_lat demo_fmt_lon one_by_one ''temperature'' =
        join [10] ((ascii ''    '' @ concat (map demo_fmt_lon (grid_lons one_by_one))) #
                   map (\<lambda>lat. demo_fmt_lat lat
                          @ concat (map (grid_cell ''temperature'' one_by_one lat) (grid_lons one_by_one)))
                       (grid_lats one_by_one))"
    using w some by blast
  then have 2: "heatmap_ascii demo_fmt_lat demo_fmt_lon one_by_one ''temperature'' =
       join [10]
         [ascii ''    -120.3 -30.1  15.2'',
          ascii ''78.5     ?     ?     ?'',
          ascii ''45.2     ?     ?     ?'',
          ascii ''35.5     .     ?     ?'']"
    using grid_cells_one_by_one [of "''temperature''"]
    by (simp add: grid_one_by_one demo_fmt_lat_def demo_fmt_lon_def ascii_def glyph_code_def)
  have "heatmap_ascii demo_fmt_lat demo_fmt_lon one_by_one ''salt'' =
        join [10] ((ascii ''    '' @ concat (map demo_fmt_lon (grid_lons one_by_one))) #
                   map (\<lambda>lat. demo_fmt_lat lat
                          @ concat (replicate (length (grid_lons one_by_one)) [32, 32, 32, 32, 32, 63]))
                       (grid_lats one_by_one))"
    using q some other by blast
  then have 3: "heatmap_ascii demo_fmt_lat demo_fmt_lon one_by_one ''salt'' =
       join [10]
         [ascii ''    -120.3 -30.1  15.2'',
          ascii ''78.5     ?     ?     ?'',
          ascii ''45.2     ?     ?     ?'',
          ascii ''35.5     ?     ?     ?'']"
    by (simp add: grid_one_by_one demo_fmt_lat_def demo_fmt_lon_def ascii_def
          numeral_3_eq_3)
  from 1 2 3 get_latest_one_by_one(1) show ?thesis by simp
qed

section \<open>Rounding to the nearest double\<close>

lemma round_half_even_cases:
  "round_half_even z = \<lfloor>z\<rfloor> \<and> z - of_int \<lfloor>z\<rfloor> \<le> 1 / 2
   \<or> round_half_even z = \<lfloor>z\<rfloor> + 1 \<and> 1 / 2 \<le> z - of_int \<lfloor>z\<rfloor>"
  by (auto simp: round_half_even_def Let_def)

lemma round_half_even_nearest:
  "\<bar>of_int (round_half_even z) - z\<bar> \<le> \<bar>of_int i - z\<bar>"
proof -
  have fl: "of_int \<lfloor>z\<rfloor> \<le> z" "z < of_int \<lfloor>z\<rfloor> + 1" by linarith+
  have i: "i \<le> \<lfloor>z\<rfloor> \<or> \<lfloor>z\<rfloor> + 1 \<le> i" by linarith
  then have i': "(of_int i :: real) \<le> of_int \<lfloor>z\<rfloor> \<or> (of_int \<lfloor>z\<rfloor> :: real) + 1 \<le> of_int i"
    by (metis of_int_le_iff of_int_add of_int_1)
  from round_half_even_cases [of z] show ?thesis
  proof (elim disjE conjE)
    assume "round_half_even z = \<lfloor>z\<rfloor>" "z - of_int \<lfloor>z\<rfloor> \<le> 1 / 2"
    with fl i' show ?thesis by auto
  next
    assume "round_half_even z = \<lfloor>z\<rfloor> + 1" "1 / 2 \<le> z - of_int \<lfloor>z\<rfloor>"
    with fl i' show ?thesis by auto
  qed
qed

lemma round_half_even_bounds: "\<lfloor>z\<rfloor> \<le> round_half_even z" "round_half_even z \<le> \<lfloor>z\<rfloor> + 1"
  using round_half_even_cases [of z] by auto

lemma round_half_even_of_int [simp]: "round_half_even (of_int i) = i"
  by (simp add: round_half_even_def)

lemma halvings_bounds:
  "1 \<le> a \<Longrightarrow> halvings n a \<le> n \<and> 2 ^ halvings n a \<le> a
                 \<and> (halvings n a < n \<longrightarrow> a < 2 * 2 ^ halvings n a)"
proof (induction n arbitrary: a)
  case 0
  then show ?case by simp
next
  case (Suc n)
  show ?case
  proof (cases "2 \<le> a")
    case True
    then have "1 \<le> a / 2" by simp
    from Suc.IH [OF this] True show ?thesis by (simp add: field_simps)
  next
    case False
    with Suc.prems show ?thesis by simp
  qed
qed

lemma doublings_bounds:
  "0 < a \<Longrightarrow> a < 1 \<Longrightarrow> doublings n a \<le> n \<and> a * 2 ^ doublings n a < 2
                 \<and> (doublings n a < n \<longrightarrow> 1 \<le> a * 2 ^ doublings n a)"
proof (induction n arbitrary: a)
  case 0
  then show ?case by simp
next
  case (Suc n)
  show ?case
  proof (cases "2 * a < 1")
    case True
    with Suc.prems have "0 < 2 * a" by simp
    from Suc.IH [OF this True] Suc.prems show ?thesis by (simp add: field_simps)
  next
    case False
    with Suc.prems show ?thesis by (cases n) (simp_all add: field_simps)
  qed
qed

lemma ulp_pos: "0 < ulp r"
  by (simp add: ulp_def)

lemma ulp_large:
  assumes "1 \<le> \<bar>r\<bar>"
  shows "\<exists>j. ulp r = 2 ^ j / 2 ^ 1074 \<and> 2 ^ 52 * ulp r \<le> \<bar>r\<bar>
           \<and> (\<bar>r\<bar> < 2 ^ 1024 \<longrightarrow> \<bar>r\<bar> < 2 ^ 53 * ulp r)
           \<and> (2 ^ 1024 \<le> \<bar>r\<bar> \<longrightarrow> ulp r = 2 ^ 972)"
proof -
  define k where "k = halvings 1024 \<bar>r\<bar>"
  from halvings_bounds [OF assms, of 1024]
  have k: "k \<le> 1024" "2 ^ k \<le> \<bar>r\<bar>" "k < 1024 \<longrightarrow> \<bar>r\<bar> < 2 * 2 ^ k"
    by (simp_all add: k_def)
  have u: "ulp r = 2 ^ k / 2 ^ 52" using assms by (simp add: ulp_def k_def)
  have "(2::real) ^ (k + 1022) / 2 ^ 1074 = 2 ^ k / 2 ^ 52"
  proof -
    have "(2::real) ^ 1074 = 2 ^ 52 * 2 ^ 1022" by (simp only: power_add [symmetric]) simp
    then show ?thesis by (simp only: power_add) simp
  qed
  then have 1: "ulp r = 2 ^ (k + 1022) / 2 ^ 1074" by (simp only: u)
  have 2: "2 ^ 52 * ulp r \<le> \<bar>r\<bar>" using k(2) by (simp add: u)
  have 3: "\<bar>r\<bar> < 2 ^ 1024 \<longrightarrow> \<bar>r\<bar> < 2 ^ 53 * ulp r"
  proof
    assume lt: "\<bar>r\<bar> < 2 ^ 1024"
    have "k < 1024"
    proof (rule ccontr)
      assume "\<not> k < 1024"
      with k(1) have "k = 1024" by simp
      with k(2) lt show False by simp
    qed
    with k(3) have "\<bar>r\<bar> < 2 * 2 ^ k" by simp
    then show "\<bar>r\<bar> < 2 ^ 53 * ulp r" by (simp add: u)
  qed
  have 4: "2 ^ 1024 \<le> \<bar>r\<bar> \<longrightarrow> ulp r = 2 ^ 972"
  proof
    assume ge: "2 ^ 1024 \<le> \<bar>r\<bar>"
    have "k = 1024"
    proof (rule ccontr)
      assume "k \<noteq> 1024"
      with k(1) have lt: "k < 1024" by simp
      with k(3) have "\<bar>r\<bar> < 2 * 2 ^ k" by simp
      also have "\<dots> = 2 ^ Suc k" by simp
      also have "\<dots> \<le> 2 ^ 1024" using lt by (intro power_increasing) simp_all
      finally show False using ge by simp
    qed
    then show "ulp r = 2 ^ 972" by (simp add: u)
  qed
  from 1 2 3 4 show ?thesis by blast
qed

lemma ulp_small:
  assumes "r \<noteq> 0" "\<bar>r\<bar> < 1"
  shows "\<exists>j. ulp r = 2 ^ j / 2 ^ 1074 \<and> (1 \<le> j \<longrightarrow> 2 ^ 52 * ulp r \<le> \<bar>r\<bar>)
           \<and> \<bar>r\<bar> < 2 ^ 53 * ulp r"
proof -
  define k where "k = doublings 1022 \<bar>r\<bar>"
  from assms have "0 < \<bar>r\<bar>" by simp
  from doublings_bounds [OF this assms(2), of 1022]
  have k: "k \<le> 1022" "\<bar>r\<bar> * 2 ^ k < 2" "k < 1022 \<longrightarrow> 1 \<le> \<bar>r\<bar> * 2 ^ k"
    by (simp_all add: k_def)
  have u: "ulp r = 1 / (2 ^ k * 2 ^ 52)" using assms by (simp add: ulp_def k_def)
  have "(2::real) ^ (1022 - k) / 2 ^ 1074 = 1 / (2 ^ k * 2 ^ 52)"
  proof -
    have "(2::real) ^ 1074 = 2 ^ 52 * (2 ^ (1022 - k) * 2 ^ k)"
      using k(1) by (simp only: power_add [symmetric]) simp
    then show ?thesis by (simp only:) (simp add: field_simps)
  qed
  then have 1: "ulp r = 2 ^ (1022 - k) / 2 ^ 1074" by (simp only: u)
  have 2: "1 \<le> 1022 - k \<longrightarrow> 2 ^ 52 * ulp r \<le> \<bar>r\<bar>"
  proof
    assume "1 \<le> 1022 - k"
    then have "k < 1022" by simp
    with k(3) have "1 \<le> \<bar>r\<bar> * 2 ^ k" by simp
    then show "2 ^ 52 * ulp r \<le> \<bar>r\<bar>" by (simp add: u field_simps)
  qed
  have 3: "\<bar>r\<bar> < 2 ^ 53 * ulp r" using k(2) by (simp add: u field_simps)
  from 1 2 3 show ?thesis by blast
qed

lemma ulp_grid:
  assumes "r \<noteq> 0"
  shows "\<exists>j. ulp r = 2 ^ j / 2 ^ 1074 \<and> (1 \<le> j \<longrightarrow> 2 ^ 52 * ulp r \<le> \<bar>r\<bar>)
           \<and> (\<bar>r\<bar> < 2 ^ 1024 \<longrightarrow> \<bar>r\<bar> < 2 ^ 53 * ulp r)
           \<and> (2 ^ 1024 \<le> \<bar>r\<bar> \<longrightarrow> ulp r = 2 ^ 972)"
proof (cases "1 \<le> \<bar>r\<bar>")
  case True
  from ulp_large [OF True] show ?thesis by blast
next
  case False
  then have lt: "\<bar>r\<bar> < 1" by simp
  have "(1::real) \<le> 2 ^ 1024" by (rule one_le_power) simp
  with lt have "\<not> 2 ^ 1024 \<le> \<bar>r\<bar>" by linarith
  with ulp_small [OF assms lt] show ?thesis by blast
qed

lemma round_half_even_le: "z \<le> of_int i \<Longrightarrow> round_half_even z \<le> i"
proof -
  assume le: "z \<le> of_int i"
  have fl: "of_int \<lfloor>z\<rfloor> \<le> z" by linarith
  from round_half_even_cases [of z] show ?thesis
  proof (elim disjE conjE)
    assume "round_half_even z = \<lfloor>z\<rfloor>"
    moreover from fl le have "\<lfloor>z\<rfloor> \<le> i" by linarith
    ultimately show ?thesis by simp
  next
    assume r: "round_half_even z = \<lfloor>z\<rfloor> + 1" and h: "1 / 2 \<le> z - of_int \<lfloor>z\<rfloor>"
    from h le have "(of_int \<lfloor>z\<rfloor> :: real) < of_int i" by linarith
    then have "\<lfloor>z\<rfloor> < i" by (simp only: of_int_less_iff)
    with r show ?thesis by simp
  qed
qed

lemma round_half_even_ge: "of_int i \<le> z \<Longrightarrow> i \<le> round_half_even z"
proof -
  assume "of_int i \<le> z"
  then have "i \<le> \<lfloor>z\<rfloor>" by (simp add: le_floor_iff)
  with round_half_even_bounds(1) [of z] show ?thesis by linarith
qed

lemma round_half_even_abs_le: "\<bar>z\<bar> \<le> of_int i \<Longrightarrow> \<bar>round_half_even z\<bar> \<le> i"
proof -
  assume a: "\<bar>z\<bar> \<le> of_int i"
  then have "z \<le> of_int i" "of_int (- i) \<le> z" by simp_all
  from round_half_even_le [OF this(1)] round_half_even_ge [OF this(2)] show ?thesis by simp
qed

lemma round_half_even_abs_ge: "of_int i \<le> \<bar>z\<bar> \<Longrightarrow> i \<le> \<bar>round_half_even z\<bar>"
proof (cases "0 \<le> z")
  case True
  assume "of_int i \<le> \<bar>z\<bar>"
  with True have "of_int i \<le> z" by simp
  from round_half_even_ge [OF this] show ?thesis by simp
next
  case False
  assume "of_int i \<le> \<bar>z\<bar>"
  with False have "z \<le> of_int (- i)" by simp
  from round_half_even_le [OF this] show ?thesis by simp
qed

lemma rnd_Fin_nonzero:
  assumes "r \<noteq> 0" and "rnd r = Fin y"
  shows "y = of_int (round_half_even (r / ulp r)) * ulp r" and "\<bar>y\<bar> < 2 ^ 1024"
  using assms by (auto simp: rnd_def Let_def split: if_splits)

lemma pow_1024: "(2::real) ^ 1024 = 2 ^ 52 * 2 ^ 972"
  by (simp only: power_add [symmetric]) simp

lemma rnd_Fin_small:
  assumes "r \<noteq> 0" and "rnd r = Fin y"
  shows "\<bar>r\<bar> < 2 ^ 1024"
proof (rule ccontr)
  assume "\<not> \<bar>r\<bar> < 2 ^ 1024"
  then have ge: "2 ^ 1024 \<le> \<bar>r\<bar>" by simp
  from ulp_grid [OF assms(1)] ge have u: "ulp r = 2 ^ 972" by blast
  define n where "n = round_half_even (r / ulp r)"
  have y: "y = of_int n * 2 ^ 972" "\<bar>y\<bar> < 2 ^ 1024"
    using rnd_Fin_nonzero [OF assms] by (simp_all add: n_def u)
  have z: "of_int (2 ^ 52) \<le> \<bar>r / ulp r\<bar>"
  proof -
    from ge have "2 ^ 52 * 2 ^ 972 \<le> \<bar>r\<bar>" by (simp only: pow_1024)
    then show ?thesis by (simp add: u field_simps)
  qed
  from round_half_even_abs_ge [OF z] have "2 ^ 52 \<le> \<bar>n\<bar>" by (simp add: n_def)
  then have "(2::real) ^ 52 \<le> \<bar>of_int n\<bar>"
    by (metis of_int_abs of_int_le_iff of_int_numeral of_int_power)
  then have "(2::real) ^ 52 * 2 ^ 972 \<le> \<bar>of_int n\<bar> * 2 ^ 972"
    by (intro mult_right_mono) simp_all
  with y show False by (simp add: abs_mult pow_1024)
qed

lemma rnd_zero [simp]: "rnd 0 = Fin 0"
  by (simp add: rnd_def)

lemma is_double_0: "is_double 0"
  unfolding is_double_def by (intro conjI exI [of _ 0]) simp_all

lemma rnd_is_double:
  assumes "rnd r = Fin y"
  shows "is_double y"
proof (cases "r = 0")
  case True
  with assms show ?thesis by (simp add: is_double_0)
next
  case False
  define n where "n = round_half_even (r / ulp r)"
  from rnd_Fin_nonzero [OF False assms]
  have y: "y = of_int n * ulp r" "\<bar>y\<bar> < 2 ^ 1024" by (simp_all add: n_def)
  from ulp_grid [OF False] rnd_Fin_small [OF False assms]
  obtain j where j: "ulp r = 2 ^ j / 2 ^ 1074" "\<bar>r\<bar> < 2 ^ 53 * ulp r" by blast
  have "\<bar>r / ulp r\<bar> \<le> of_int (2 ^ 53)"
    using j(2) ulp_pos [of r] by (simp add: field_simps)
  from round_half_even_abs_le [OF this] have "\<bar>n\<bar> \<le> 2 ^ 53" by (simp add: n_def)
  moreover have "y = of_int n * 2 ^ j / 2 ^ 1074" by (simp add: y(1) j(1))
  ultimately show ?thesis using y(2) unfolding is_double_def by blast
qed

lemma rnd_nearest:
  assumes "rnd r = Fin y" and "is_double d"
  shows "\<bar>y - r\<bar> \<le> \<bar>d - r\<bar>"
proof (cases "r = 0")
  case True
  with assms show ?thesis by simp
next
  case False
  define u where "u = ulp r"
  define n where "n = round_half_even (r / u)"
  have u0: "0 < u" by (simp add: u_def ulp_pos)
  from rnd_Fin_nonzero [OF False assms(1)] have y: "y = of_int n * u" by (simp add: n_def u_def)
  from ulp_grid [OF False]
  obtain j where j: "u = 2 ^ j / 2 ^ 1074" "1 \<le> j \<longrightarrow> 2 ^ 52 * u \<le> \<bar>r\<bar>"
    unfolding u_def by blast
  from assms(2) obtain m :: int and e :: nat
    where d: "\<bar>m\<bar> \<le> 2 ^ 53" "d = of_int m * 2 ^ e / 2 ^ 1074"
    unfolding is_double_def by blast
  have grid: "\<bar>of_int n * u - r\<bar> \<le> \<bar>of_int i * u - r\<bar>" for i :: int
  proof -
    have "\<bar>of_int n - r / u\<bar> * u \<le> \<bar>of_int i - r / u\<bar> * u"
      using round_half_even_nearest [of "r / u" i] u0 by (simp add: n_def)
    moreover have "\<bar>of_int k - r / u\<bar> * u = \<bar>of_int k * u - r\<bar>" for k :: int
    proof -
      have "\<bar>of_int k - r / u\<bar> * u = \<bar>(of_int k - r / u) * u\<bar>"
        using u0 by (simp add: abs_mult)
      also have "(of_int k - r / u) * u = of_int k * u - r"
        using u0 by (simp add: field_simps)
      finally show ?thesis .
    qed
    ultimately show ?thesis by simp
  qed
  show ?thesis
  proof (cases "j \<le> e")
    case True
    then have "(2::real) ^ e = 2 ^ (e - j) * 2 ^ j" by (simp add: power_add [symmetric])
    then have "d = of_int (m * 2 ^ (e - j)) * u" by (simp add: d(2) j(1))
    with grid [of "m * 2 ^ (e - j)"] show ?thesis by (simp only: y)
  next
    case False
    then have ej: "e < j" "1 \<le> j" by simp_all
    with j(2) have low: "2 ^ 52 * u \<le> \<bar>r\<bar>" by simp
    have "\<bar>d\<bar> \<le> 2 ^ 52 * u"
    proof -
      have "\<bar>of_int m :: real\<bar> \<le> 2 ^ 53"
        using d(1) by (metis of_int_abs of_int_le_iff of_int_numeral of_int_power)
      moreover have "(2::real) ^ e * 2 \<le> 2 ^ j"
      proof -
        have "(2::real) ^ Suc e \<le> 2 ^ j" using ej(1) by (intro power_increasing) simp_all
        then show ?thesis by simp
      qed
      ultimately have "\<bar>of_int m :: real\<bar> * (2 ^ e * 2) \<le> 2 ^ 53 * 2 ^ j"
        by (intro mult_mono) simp_all
      then have "\<bar>of_int m :: real\<bar> * 2 ^ e \<le> 2 ^ 52 * 2 ^ j" by simp
      then have "\<bar>of_int m :: real\<bar> * 2 ^ e / 2 ^ 1074 \<le> 2 ^ 52 * 2 ^ j / 2 ^ 1074"
        by (intro divide_right_mono) simp_all
      then show ?thesis by (simp add: d(2) j(1) abs_mult)
    qed
    show ?thesis
    proof (cases "0 < r")
      case True
      with low \<open>\<bar>d\<bar> \<le> 2 ^ 52 * u\<close> have "d \<le> 2 ^ 52 * u" "2 ^ 52 * u \<le> r" by simp_all
      then have "\<bar>of_int (2 ^ 52) * u - r\<bar> \<le> \<bar>d - r\<bar>" by simp
      with grid [of "2 ^ 52"] show ?thesis by (simp only: y)
    next
      case neg: False
      with \<open>r \<noteq> 0\<close> low \<open>\<bar>d\<bar> \<le> 2 ^ 52 * u\<close>
      have "- (2 ^ 52 * u) \<le> d" "r \<le> - (2 ^ 52 * u)" by simp_all
      then have "\<bar>of_int (- (2 ^ 52)) * u - r\<bar> \<le> \<bar>d - r\<bar>" by simp
      with grid [of "- (2 ^ 52)"] show ?thesis by (simp only: y)
    qed
  qed
qed

lemma round_half_even_half: "\<bar>of_int (round_half_even z) - z\<bar> \<le> 1 / 2"
proof -
  have fl: "of_int \<lfloor>z\<rfloor> \<le> z" "z < of_int \<lfloor>z\<rfloor> + 1" by linarith+
  from round_half_even_cases [of z] show ?thesis
  proof (elim disjE conjE)
    assume a: "round_half_even z = \<lfloor>z\<rfloor>" and b: "z - of_int \<lfloor>z\<rfloor> \<le> 1 / 2"
    from fl b show ?thesis by (simp add: a abs_le_iff)
  next
    assume a: "round_half_even z = \<lfloor>z\<rfloor> + 1" and b: "1 / 2 \<le> z - of_int \<lfloor>z\<rfloor>"
    from fl b show ?thesis by (simp add: a abs_le_iff)
  qed
qed

lemma round_half_even_even_up:
  assumes "even i" and "of_int i - 1 / 2 \<le> z"
  shows "i \<le> round_half_even z"
proof (cases "of_int i \<le> z")
  case True
  then show ?thesis by (rule round_half_even_ge)
next
  case False
  with assms(2) have "of_int (i - 1) \<le> z" "z < of_int (i - 1) + 1" by simp_all
  then have fl: "\<lfloor>z\<rfloor> = i - 1" by (simp add: floor_unique)
  with assms(1) have odd: "odd \<lfloor>z\<rfloor>" by simp
  have "1 / 2 \<le> z - of_int \<lfloor>z\<rfloor>" using assms(2) by (simp add: fl)
  with odd have "round_half_even z = \<lfloor>z\<rfloor> + 1"
    by (auto simp: round_half_even_def Let_def)
  then show ?thesis by (simp add: fl)
qed

lemma round_half_even_even_down:
  assumes "even i" and "z \<le> of_int i + 1 / 2"
  shows "round_half_even z \<le> i"
proof (cases "z \<le> of_int i")
  case True
  then show ?thesis by (rule round_half_even_le)
next
  case False
  with assms(2) have "of_int i \<le> z" "z < of_int i + 1" by simp_all
  then have fl: "\<lfloor>z\<rfloor> = i" by (simp add: floor_unique)
  have "z - of_int \<lfloor>z\<rfloor> \<le> 1 / 2" using assms(2) by (simp add: fl)
  with assms(1) have "round_half_even z = \<lfloor>z\<rfloor>"
    by (auto simp: round_half_even_def Let_def fl)
  then show ?thesis by (simp add: fl)
qed

lemma round_half_even_even_abs:
  assumes "even i" and "of_int i - 1 / 2 \<le> \<bar>z\<bar>"
  shows "i \<le> \<bar>round_half_even z\<bar>"
proof (cases "0 \<le> z")
  case True
  with assms(2) have "of_int i - 1 / 2 \<le> z" by simp
  from round_half_even_even_up [OF assms(1) this] show ?thesis by simp
next
  case False
  with assms(2) have "z \<le> of_int (- i) + 1 / 2" by simp
  moreover from assms(1) have "even (- i)" by simp
  ultimately have "round_half_even z \<le> - i" by (rule round_half_even_even_down [rotated])
  then show ?thesis by simp
qed

lemma pow_1024': "(2::real) ^ 1024 = 2 ^ 53 * 2 ^ 971" "(2::real) ^ 1024 = 2 * 2 ^ 1023"
  "(2::real) ^ 1023 = 2 ^ 52 * 2 ^ 971" "(2::real) ^ 971 = 2 * 2 ^ 970"
  by (simp_all only: power_add [symmetric] power_Suc [symmetric]) simp_all

lemma ulp_top:
  assumes "1 \<le> \<bar>r\<bar>" and "\<bar>r\<bar> < 2 ^ 1024"
  shows "ulp r \<le> 2 ^ 971" and "2 ^ 1023 \<le> \<bar>r\<bar> \<Longrightarrow> ulp r = 2 ^ 971"
proof -
  define k where "k = halvings 1024 \<bar>r\<bar>"
  from halvings_bounds [OF assms(1), of 1024]
  have k: "k \<le> 1024" "2 ^ k \<le> \<bar>r\<bar>" "k < 1024 \<longrightarrow> \<bar>r\<bar> < 2 * 2 ^ k"
    by (simp_all add: k_def)
  have u: "ulp r = 2 ^ k / 2 ^ 52" using assms(1) by (simp add: ulp_def k_def)
  have "k \<noteq> 1024" using k(2) assms(2) by auto
  with k(1) have lt: "k \<le> 1023" by simp
  then have "(2::real) ^ k \<le> 2 ^ 1023" by (intro power_increasing) simp_all
  then have "(2::real) ^ k / 2 ^ 52 \<le> 2 ^ 1023 / 2 ^ 52" by (intro divide_right_mono) simp_all
  then show "ulp r \<le> 2 ^ 971" by (simp add: u pow_1024'(3))
  assume big: "2 ^ 1023 \<le> \<bar>r\<bar>"
  have "k = 1023"
  proof (rule ccontr)
    assume "k \<noteq> 1023"
    with lt have "Suc k \<le> 1023" by simp
    then have "(2::real) ^ Suc k \<le> 2 ^ 1023" by (intro power_increasing) simp_all
    moreover from lt k(3) have "\<bar>r\<bar> < 2 ^ Suc k" by simp
    ultimately show False using big by linarith
  qed
  then show "ulp r = 2 ^ 971" by (simp add: u pow_1024'(3))
qed

lemma ulp_le_1: "\<bar>r\<bar> < 1 \<Longrightarrow> ulp r \<le> 1"
proof -
  assume "\<bar>r\<bar> < 1"
  then have u: "ulp r = 1 / (2 ^ doublings 1022 \<bar>r\<bar> * 2 ^ 52)" by (simp add: ulp_def)
  have "(1::real) * 1 \<le> 2 ^ doublings 1022 \<bar>r\<bar> * 2 ^ 52"
    by (intro mult_mono one_le_power) simp_all
  then have "1 / (2 ^ doublings 1022 \<bar>r\<bar> * 2 ^ 52) \<le> (1::real)"
    by (simp only: mult_1 divide_le_eq_1) simp
  with u show ?thesis by simp
qed

lemma threshold_bounds: "(2::real) ^ 1023 \<le> 2 ^ 1024 - 2 ^ 970" "(0::real) < 2 ^ 1024 - 2 ^ 970"
  "(1::real) \<le> 2 ^ 1024 - 2 ^ 970"
  by simp_all

lemma rnd_overflow:
  assumes "r \<noteq> 0"
  shows "2 ^ 1024 \<le> \<bar>of_int (round_half_even (r / ulp r)) * ulp r\<bar>
           \<longleftrightarrow> 2 ^ 1024 - 2 ^ 970 \<le> \<bar>r\<bar>"
proof
  define u where "u = ulp r"
  define n where "n = round_half_even (r / u)"
  have u0: "0 < u" by (simp add: u_def ulp_pos)
  assume big: "2 ^ 1024 - 2 ^ 970 \<le> \<bar>r\<bar>"
  with threshold_bounds have r1: "1 \<le> \<bar>r\<bar>" and r1023: "2 ^ 1023 \<le> \<bar>r\<bar>" by linarith+
  have "2 ^ 1024 \<le> \<bar>of_int n\<bar> * u"
  proof (cases "\<bar>r\<bar> < 2 ^ 1024")
    case True
    from ulp_top(2) [OF r1 True r1023] have u: "u = 2 ^ 971" by (simp add: u_def)
    have "of_int (2 ^ 53) - 1 / 2 \<le> \<bar>r / u\<bar>"
    proof -
      have "(2 ^ 53 - 1 / 2) * 2 ^ 971 = (2::real) ^ 1024 - 2 ^ 970"
        by (simp add: algebra_simps pow_1024'(1) pow_1024'(4))
      with big have "(2 ^ 53 - 1 / 2) * 2 ^ 971 \<le> \<bar>r\<bar>" by simp
      then show ?thesis by (simp add: u pos_le_divide_eq)
    qed
    moreover have "even (2 ^ 53 :: int)" by simp
    ultimately have "2 ^ 53 \<le> \<bar>n\<bar>" unfolding n_def by (rule round_half_even_even_abs [rotated])
    then have "(2::real) ^ 53 \<le> \<bar>of_int n\<bar>"
      by (metis of_int_abs of_int_le_iff of_int_numeral of_int_power)
    then have "(2::real) ^ 53 * 2 ^ 971 \<le> \<bar>of_int n\<bar> * 2 ^ 971"
      by (intro mult_right_mono) simp_all
    then show ?thesis by (simp add: u pow_1024'(1))
  next
    case False
    then have ge: "2 ^ 1024 \<le> \<bar>r\<bar>" by simp
    from ulp_grid [OF assms] ge have u: "u = 2 ^ 972" unfolding u_def by blast
    have "of_int (2 ^ 52) \<le> \<bar>r / u\<bar>"
    proof -
      from ge have "2 ^ 52 * 2 ^ 972 \<le> \<bar>r\<bar>" by (simp only: pow_1024)
      then show ?thesis by (simp add: u pos_le_divide_eq)
    qed
    from round_half_even_abs_ge [OF this] have "2 ^ 52 \<le> \<bar>n\<bar>" by (simp add: n_def)
    then have "(2::real) ^ 52 \<le> \<bar>of_int n\<bar>"
      by (metis of_int_abs of_int_le_iff of_int_numeral of_int_power)
    then have "(2::real) ^ 52 * 2 ^ 972 \<le> \<bar>of_int n\<bar> * 2 ^ 972"
      by (intro mult_right_mono) simp_all
    then show ?thesis by (simp add: u pow_1024)
  qed
  then show "2 ^ 1024 \<le> \<bar>of_int (round_half_even (r / ulp r)) * ulp r\<bar>"
    using u0 by (simp add: abs_mult n_def u_def)
next
  define u where "u = ulp r"
  define n where "n = round_half_even (r / u)"
  have u0: "0 < u" by (simp add: u_def ulp_pos)
  assume ovf: "2 ^ 1024 \<le> \<bar>of_int (round_half_even (r / ulp r)) * ulp r\<bar>"
  show "2 ^ 1024 - 2 ^ 970 \<le> \<bar>r\<bar>"
  proof (rule ccontr)
    assume "\<not> 2 ^ 1024 - 2 ^ 970 \<le> \<bar>r\<bar>"
    then have lt: "\<bar>r\<bar> < 2 ^ 1024 - 2 ^ 970" by simp
    then have lt': "\<bar>r\<bar> < 2 ^ 1024" by simp
    have ule: "u \<le> 2 ^ 971"
    proof (cases "1 \<le> \<bar>r\<bar>")
      case True
      from ulp_top(1) [OF True lt'] show ?thesis by (simp add: u_def)
    next
      case False
      then have "u \<le> 1" unfolding u_def by (intro ulp_le_1) simp
      moreover have "(1::real) \<le> 2 ^ 971" by (rule one_le_power) simp
      ultimately show ?thesis by linarith
    qed
    have "\<bar>of_int n * u - r\<bar> = \<bar>of_int n - r / u\<bar> * u"
    proof -
      have "of_int n * u - r = (of_int n - r / u) * u" using u0 by (simp add: field_simps)
      then show ?thesis using u0 by (simp add: abs_mult)
    qed
    also have "\<dots> \<le> 1 / 2 * u"
      using round_half_even_half [of "r / u"] u0 unfolding n_def by (intro mult_right_mono) simp_all
    also have "\<dots> \<le> 2 ^ 970" using ule by (simp add: pow_1024'(4))
    finally have "\<bar>of_int n * u\<bar> \<le> 2 ^ 970 + \<bar>r\<bar>" by linarith
    with lt ovf show False by (simp add: n_def u_def)
  qed
qed

lemma rnd_not_NaN: "rnd r \<noteq> NaN"
  by (simp add: rnd_def Let_def)

lemma rnd_PInf_iff: "rnd r = PInf \<longleftrightarrow> 2 ^ 1024 - 2 ^ 970 \<le> r"
proof (cases "r = 0")
  case True
  then show ?thesis by simp
next
  case False
  from rnd_overflow [OF False] threshold_bounds(2) show ?thesis
    by (auto simp: rnd_def Let_def)
qed

lemma rnd_NInf_iff: "rnd r = NInf \<longleftrightarrow> r \<le> - (2 ^ 1024 - 2 ^ 970)"
proof (cases "r = 0")
  case True
  then show ?thesis by simp
next
  case False
  from rnd_overflow [OF False] threshold_bounds(2) show ?thesis
    by (auto simp: rnd_def Let_def)
qed

section \<open>Heat content\<close>

lemma heats_Nil: "heats db [] = []"
  by (simp add: heats_def map_filter_simps)

lemma heats_Cons:
  "heats db (sid # sids) =
     (case get_latest db sid of None \<Rightarrow> heats db sids | Some r \<Rightarrow> heat_of r # heats db sids)"
  by (simp add: heats_def map_filter_simps split: option.splits)

lemma heat_loop_heats:
  "heat_loop db sids (t, n) = Inr (foldl fadd t (heats db sids), n + length (heats db sids))"
proof (induction sids arbitrary: t n)
  case Nil
  show ?case by (simp add: heats_Nil)
next
  case (Cons sid sids)
  show ?case
    by (cases "get_latest db sid")
       (simp_all add: Cons.IH heats_Cons py_truediv_def heat_of_def)
qed

lemma is_double_1: "is_double 1"
proof -
  have "(1::real) = of_int 1 * 2 ^ 1074 / 2 ^ 1074" by simp
  moreover have "\<bar>1::int\<bar> \<le> 2 ^ 53" by simp
  moreover have "\<bar>1::real\<bar> < 2 ^ 1024" by simp
  ultimately show ?thesis unfolding is_double_def by blast
qed

lemma float_of_nat_nonzero: "0 < n \<Longrightarrow> float_of_nat n \<noteq> Fin 0"
proof
  assume n: "0 < n" and z: "float_of_nat n = Fin 0"
  from z have "rnd (real n) = Fin 0" by (simp add: float_of_nat_def)
  from rnd_nearest [OF this is_double_1] n show False by simp
qed

lemma py_round_zero: "py_round (Fin 0) n = Fin 0"
  by (simp add: py_round_def round_half_even_def)

lemma calculate_heat_content_heats:
  "calculate_heat_content db sensor_ids =
     Inr \<lparr> total_heat_content_kj_m2 = py_round (fsum (heats db sensor_ids)) 2,
           average_heat_kj_m2 =
             (if heats db sensor_ids = [] then Fin 0
              else py_round (fdiv (fsum (heats db sensor_ids))
                                  (rnd (real (length (heats db sensor_ids))))) 2),
           sensors_sampled = length (heats db sensor_ids) \<rparr>"
proof (cases "heats db sensor_ids = []")
  case True
  then show ?thesis
    by (simp add: calculate_heat_content_def heat_loop_heats fsum_def)
next
  case False
  then have "0 < length (heats db sensor_ids)" by simp
  from float_of_nat_nonzero [OF this] False show ?thesis
    by (simp add: calculate_heat_content_def heat_loop_heats fsum_def py_truediv_def
          float_of_nat_def)
qed

lemma py_round_2_decimals:
  "\<exists>k::int. \<bar>a * 100 - of_int k\<bar> \<le> 1 / 2 \<and> py_round (Fin a) 2 = rnd (of_int k / 100)"
proof -
  have "\<bar>a * 100 - of_int (round_half_even (a * 100))\<bar> \<le> 1 / 2"
    using round_half_even_half [of "a * 100"] by (simp add: abs_minus_commute)
  moreover have "py_round (Fin a) 2 = rnd (of_int (round_half_even (a * 100)) / 100)"
    by (simp add: py_round_def)
  ultimately show ?thesis by blast
qed

lemma heat_of_1_1:
  "heat_of \<lparr> sensor_id = ''S_PACIFIC_01'', temperature_c = 1, salinity_psu = 35, ph = 8,
             dissolved_o2_mgl = 5, current_ms = 0, depth_m = 1, timestamp = 1000 \<rparr>
     = Fin (589127126255403 / 140737488355328)"
  by code_simp

lemma heats_one_by_one:
  "heats one_by_one [''S_PACIFIC_01'', ''S_ARCTIC_01''] = [Fin (589127126255403 / 140737488355328)]"
  by (simp add: heats_Cons heats_Nil get_latest_one_by_one heat_of_1_1)

lemma round_1_1:
  "fsum [Fin (589127126255403 / 140737488355328)] = Fin (589127126255403 / 140737488355328)"
  "py_round (Fin (589127126255403 / 140737488355328)) 2 = Fin (4717520609670595 / 1125899906842624)"
  "fdiv (Fin (589127126255403 / 140737488355328)) (rnd 1) = Fin (589127126255403 / 140737488355328)"
  by code_simp+

text \<open>
  C8, as stated, fails. With one sampled sensor whose latest reading is 1 degree at depth
  1, the one value is the double 4.186 (589127126255403 / 2 ^ 47), so this is the sum; the
  total returned is the double 4.19 (4717520609670595 / 2 ^ 50).
\<close>

theorem calculate_heat_content_counterexample:
  "heats one_by_one [''S_PACIFIC_01'', ''S_ARCTIC_01''] = [Fin (589127126255403 / 140737488355328)]
   \<and> fsum (heats one_by_one [''S_PACIFIC_01'', ''S_ARCTIC_01''])
        = Fin (589127126255403 / 140737488355328)
   \<and> calculate_heat_content one_by_one [''S_PACIFIC_01'', ''S_ARCTIC_01''] =
        Inr \<lparr> total_heat_content_kj_m2 = Fin (4717520609670595 / 1125899906842624),
              average_heat_kj_m2 = Fin (4717520609670595 / 1125899906842624),
              sensors_sampled = 1 \<rparr>
   \<and> Fin (4717520609670595 / 1125899906842624) \<noteq> Fin (589127126255403 / 140737488355328)"
  by (simp add: calculate_heat_content_heats heats_one_by_one round_1_1)

text \<open>
  C8, amended. \<open>calculate_heat_content\<close> never fails. With \<open>heats\<close> the values
  temperature * depth * 4186 / 1000 of the latest readings of the listed sensors that have
  one, computed in double precision from left to right, and \<open>fsum\<close> their sum from left to
  right, it returns the sum rounded to two decimals as the total, the sum divided by their
  number, rounded to two decimals, as the average (0 when there is none), and their
  number as the count; on the empty list it returns total 0, average 0 and count 0.
  Double precision means: the product, the sum and the quotient of finite doubles are the
  exact result rounded by \<open>rnd\<close>; \<open>rnd\<close> of a real number is a double nearest to it, or
  an infinity from \<open>2 ^ 1024 - 2 ^ 970\<close> on; rounding to two decimals takes an integer
  number of hundredths nearest to the value and rounds it by \<open>rnd\<close>.
\<close>

theorem calculate_heat_content_rounded:
  "calculate_heat_content db sensor_ids =
     Inr \<lparr> total_heat_content_kj_m2 = py_round (fsum (heats db sensor_ids)) 2,
           average_heat_kj_m2 =
             (if heats db sensor_ids = [] then Fin 0
              else py_round (fdiv (fsum (heats db sensor_ids))
                                  (rnd (real (length (heats db sensor_ids))))) 2),
           sensors_sampled = length (heats db sensor_ids) \<rparr>
   \<and> calculate_heat_content db [] =
       Inr \<lparr> total_heat_content_kj_m2 = Fin 0, average_heat_kj_m2 = Fin 0, sensors_sampled = 0 \<rparr>
   \<and> (\<forall>a b. fmul (Fin a) (Fin b) = rnd (a * b) \<and> fadd (Fin a) (Fin b) = rnd (a + b)
             \<and> fdiv (Fin a) (Fin b) = rnd (a / b))
   \<and> (\<forall>a. \<exists>k::int. \<bar>a * 100 - of_int k\<bar> \<le> 1 / 2 \<and> py_round (Fin a) 2 = rnd (of_int k / 100))
   \<and> (\<forall>r y. rnd r = Fin y \<longrightarrow> is_double y \<and> (\<forall>d. is_double d \<longrightarrow> \<bar>y - r\<bar> \<le> \<bar>d - r\<bar>))
   \<and> (\<forall>r. (rnd r = PInf \<longleftrightarrow> 2 ^ 1024 - 2 ^ 970 \<le> r)
          \<and> (rnd r = NInf \<longleftrightarrow> r \<le> - (2 ^ 1024 - 2 ^ 970)) \<and> rnd r \<noteq> NaN)"
proof (intro conjI allI impI)
  show "calculate_heat_content db sensor_ids =
     Inr \<lparr> total_heat_content_kj_m2 = py_round (fsum (heats db sensor_ids)) 2,
           average_heat_kj_m2 =
             (if heats db sensor_ids = [] then Fin 0
              else py_round (fdiv (fsum (heats db sensor_ids))
                                  (rnd (real (length (heats db sensor_ids))))) 2),
           sensors_sampled = length (heats db sensor_ids) \<rparr>"
    by (rule calculate_heat_content_heats)
  show "calculate_heat_content db [] =
       Inr \<lparr> total_heat_content_kj_m2 = Fin 0, average_heat_kj_m2 = Fin 0, sensors_sampled = 0 \<rparr>"
    by (simp add: calculate_heat_content_heats heats_Nil fsum_def py_round_zero)
  show "\<exists>k::int. \<bar>a * 100 - of_int k\<bar> \<le> 1 / 2 \<and> py_round (Fin a) 2 = rnd (of_int k / 100)" for a
    by (rule py_round_2_decimals)
  show "is_double y" if "rnd r = Fin y" for r y
    using that by (rule rnd_is_double)
  show "\<bar>y - r\<bar> \<le> \<bar>d - r\<bar>" if "rnd r = Fin y" "is_double d" for r y d
    using that by (rule rnd_nearest)
  show "rnd r = PInf \<longleftrightarrow> 2 ^ 1024 - 2 ^ 970 \<le> r" for r
    by (rule rnd_PInf_iff)
  show "rnd r = NInf \<longleftrightarrow> r \<le> - (2 ^ 1024 - 2 ^ 970)" for r
    by (rule rnd_NInf_iff)
  show "rnd r \<noteq> NaN" for r
    by (rule rnd_not_NaN)
qed simp_all

lemma get_latest_warm_shallow:
  "get_latest warm_shallow ''S_PACIFIC_01'' =
     Some \<lparr> sensor_id = ''S_PACIFIC_01'', temperature_c = 2.5, salinity_psu = 35, ph = 8,
             dissolved_o2_mgl = 5, current_ms = 0, depth_m = 5, timestamp = 1000 \<rparr>"
  "get_latest warm_shallow ''S_ARCTIC_01'' = None"
  by (simp_all add: warm_shallow_def store_eval query_eval)

lemma heat_of_warm_shallow:
  "heat_of \<lparr> sensor_id = ''S_PACIFIC_01'', temperature_c = 5 / 2, salinity_psu = 35, ph = 8,
             dissolved_o2_mgl = 5, current_ms = 0, depth_m = 5, timestamp = 1000 \<rparr>
     = Fin (3682044539096269 / 70368744177664)"
  by code_simp

lemma round_warm_shallow:
  "fsum [Fin (3682044539096269 / 70368744177664)] = Fin (3682044539096269 / 70368744177664)"
  "py_round (Fin (3682044539096269 / 70368744177664)) 2 = Fin (3682396382817157 / 70368744177664)"
  "fdiv (Fin (3682044539096269 / 70368744177664)) (rnd 1) = Fin (3682044539096269 / 70368744177664)"
  "rnd 52.33 = Fin (3682396382817157 / 70368744177664)"
  by code_simp+

theorem calculate_heat_content_rounded_witness:
  "heats warm_shallow [''S_PACIFIC_01'', ''S_ARCTIC_01''] = [Fin (3682044539096269 / 70368744177664)]
   \<and> calculate_heat_content warm_shallow [''S_PACIFIC_01'', ''S_ARCTIC_01''] =
       Inr \<lparr> total_heat_content_kj_m2 = Fin (3682396382817157 / 70368744177664),
             average_heat_kj_m2 = Fin (3682396382817157 / 70368744177664),
             sensors_sampled = 1 \<rparr>
   \<and> rnd 52.33 = Fin (3682396382817157 / 70368744177664)
   \<and> calculate_heat_content warm_shallow [] =
       Inr \<lparr> total_heat_content_kj_m2 = Fin 0, average_heat_kj_m2 = Fin 0, sensors_sampled = 0 \<rparr>"
proof -
  have h: "heats warm_shallow [''S_PACIFIC_01'', ''S_ARCTIC_01'']
             = [Fin (3682044539096269 / 70368744177664)]"
    by (simp add: heats_Cons heats_Nil get_latest_warm_shallow heat_of_warm_shallow)
  note t = calculate_heat_content_rounded [of warm_shallow "[''S_PACIFIC_01'', ''S_ARCTIC_01'']"]
  from t have "calculate_heat_content warm_shallow [''S_PACIFIC_01'', ''S_ARCTIC_01''] =
       Inr \<lparr> total_heat_content_kj_m2 = Fin (3682396382817157 / 70368744177664),
             average_heat_kj_m2 = Fin (3682396382817157 / 70368744177664),
             sensors_sampled = 1 \<rparr>"
    by (simp only: h) (simp add: round_warm_shallow)
  moreover from t have "calculate_heat_content warm_shallow [] =
       Inr \<lparr> total_heat_content_kj_m2 = Fin 0, average_heat_kj_m2 = Fin 0, sensors_sampled = 0 \<rparr>"
    by blast
  ultimately show ?thesis using h round_warm_shallow(4) by simp
qed

end
